theory Spec2Isabelle
  imports Complex_Main
begin

section \<open>Errors and one-dimensional tensors\<close>

text \<open>
  The exceptions that the modelled parts of \<^verbatim>\<open>ppo_trainer.py\<close> can raise. A tensor of
  one axis is a list; numbers are elements of a commutative ring (the reals where a
  concrete value or a quotient is needed), so rounding of the 32-bit floats is not part of
  the model.
\<close>

datatype error =
    IndexError
  | RuntimeError
  | ValueError string
  | KeyError string
  | NotImplementedError

text \<open>\<^verbatim>\<open>xs[i]\<close> for an index that is not negative: out of range raises.\<close>

definition getitem :: "'a list \<Rightarrow> nat \<Rightarrow> error + 'a" where
  "getitem xs i = (if i < length xs then Inr (xs ! i) else Inl IndexError)"

text \<open>Sequencing of fallible steps: the first exception raised ends the computation.\<close>

definition ebind :: "error + 'a \<Rightarrow> ('a \<Rightarrow> error + 'b) \<Rightarrow> error + 'b" where
  "ebind r f = (case r of Inl e \<Rightarrow> Inl e | Inr x \<Rightarrow> f x)"

fun sequence_err :: "(error + 'a) list \<Rightarrow> error + 'a list" where
  "sequence_err [] = Inr []"
| "sequence_err (r # rs) = ebind r (\<lambda>x. ebind (sequence_err rs) (\<lambda>xs. Inr (x # xs)))"

text \<open>
  An elementwise operation on two tensors of one axis: pointwise on equal lengths, an
  axis of length one is broadcast, anything else is a shape error.
\<close>

definition broadcast2 :: "('a \<Rightarrow> 'b \<Rightarrow> 'c) \<Rightarrow> 'a list \<Rightarrow> 'b list \<Rightarrow> error + 'c list" where
  "broadcast2 f xs ys =
     (if length xs = length ys then Inr (map2 f xs ys)
      else if length xs = 1 then Inr (map (f (hd xs)) ys)
      else if length ys = 1 then Inr (map (\<lambda>x. f x (hd ys)) xs)
      else Inl RuntimeError)"

text \<open>
  \<^verbatim>\<open>x.mean()\<close> and \<^verbatim>\<open>x.std()\<close> (the unbiased estimator) of a tensor. On an
  empty tensor, and for the deviation of a single element, torch gives nan; the reals have
  no such value, so the theorems below take tensors with enough elements.
\<close>

definition tensor_mean :: "real list \<Rightarrow> real" where
  "tensor_mean xs = sum_list xs / real (length xs)"

definition tensor_std :: "real list \<Rightarrow> real" where
  "tensor_std xs =
     sqrt (sum_list (map (\<lambda>x. (x - tensor_mean xs)\<^sup>2) xs) / (real (length xs) - 1))"

text \<open>\<^verbatim>\<open>torch.clamp(x, lo, hi)\<close>.\<close>

definition clamp :: "real \<Rightarrow> real \<Rightarrow> real \<Rightarrow> real" where
  "clamp lo hi x = min (max x lo) hi"

section \<open>Generalized advantage estimation: \<^verbatim>\<open>PPOTrainer.compute_gae\<close>\<close>

text \<open>
  The loop \<^verbatim>\<open>for t in reversed(range(len(rewards)))\<close>. The counter \<open>Suc t\<close> stands
  for the iteration at index \<open>t\<close>; the loop state is the tensor \<open>advantages\<close> and the
  scalar \<open>last_gae\<close>.
\<close>

fun gae_loop ::
  "'a::comm_ring_1 \<Rightarrow> 'a \<Rightarrow> 'a list \<Rightarrow> 'a list \<Rightarrow> 'a list \<Rightarrow> 'a \<Rightarrow> nat \<Rightarrow> 'a list \<Rightarrow> 'a
     \<Rightarrow> error + ('a list \<times> 'a)" where
  "gae_loop gamma gae_lambda rewards vals dones next_value 0 advantages last_gae =
     Inr (advantages, last_gae)"
| "gae_loop gamma gae_lambda rewards vals dones next_value (Suc t) advantages last_gae =
     (case (if Suc t = length rewards then Inr next_value else getitem vals (t + 1)) of
        Inl e \<Rightarrow> Inl e
      | Inr next_value_t \<Rightarrow>
         (case getitem dones t of
            Inl e \<Rightarrow> Inl e
          | Inr d \<Rightarrow>
             (case getitem vals t of
                Inl e \<Rightarrow> Inl e
              | Inr v \<Rightarrow>
                 (let delta = rewards ! t + gamma * next_value_t * (1 - d) - v;
                      new_gae = delta + gamma * gae_lambda * (1 - d) * last_gae
                  in gae_loop gamma gae_lambda rewards vals dones next_value t
                       (advantages[t := new_gae]) new_gae))))"

definition compute_gae ::
  "'a::comm_ring_1 \<Rightarrow> 'a \<Rightarrow> 'a list \<Rightarrow> 'a list \<Rightarrow> 'a list \<Rightarrow> 'a \<Rightarrow> error + ('a list \<times> 'a list)" where
  "compute_gae gamma gae_lambda rewards vals dones next_value =
     (case gae_loop gamma gae_lambda rewards vals dones next_value (length rewards)
             (replicate (length rewards) 0) 0 of
        Inl e \<Rightarrow> Inl e
      | Inr (advantages, last_gae) \<Rightarrow>
         (case broadcast2 (+) advantages vals of
            Inl e \<Rightarrow> Inl e
          | Inr returns \<Rightarrow> Inr (advantages, returns)))"

text \<open>The one-step temporal-difference error at index \<open>t\<close>, as the loop body computes it.\<close>

definition td_delta :: "'a::comm_ring_1 \<Rightarrow> 'a list \<Rightarrow> 'a list \<Rightarrow> 'a list \<Rightarrow> 'a \<Rightarrow> nat \<Rightarrow> 'a" where
  "td_delta gamma rewards vals dones next_value t =
     rewards ! t
       + gamma * (if Suc t = length rewards then next_value else vals ! (t + 1)) * (1 - dones ! t)
       - vals ! t"

section \<open>Action distributions\<close>

subsection \<open>\<^verbatim>\<open>torch.distributions.Categorical\<close> and \<^verbatim>\<open>Normal\<close>, over the reals\<close>

text \<open>
  The library distributions the trainer builds on, as torch computes them. A Categorical
  is given by its logits; it normalises them by their log-sum-exp, and its probabilities
  are the softmax. \<open>log_prob\<close> checks that the value is an integer of the support.
  Probabilities are never zero over the reals, so the branches of torch that patch
  infinite logits do not arise; cardinalities are positive, as a gym space has them.
\<close>

definition logsumexp :: "real list \<Rightarrow> real" where
  "logsumexp logits = ln (sum_list (map exp logits))"

definition cat_logits :: "real list \<Rightarrow> real list" where
  "cat_logits logits = map (\<lambda>l. l - logsumexp logits) logits"

definition cat_probs :: "real list \<Rightarrow> real list" where
  "cat_probs logits = map exp (cat_logits logits)"

definition cat_log_prob :: "real list \<Rightarrow> real \<Rightarrow> error + real" where
  "cat_log_prob logits a =
     (if a = of_int \<lfloor>a\<rfloor> \<and> 0 \<le> a \<and> nat \<lfloor>a\<rfloor> < length logits
      then Inr (cat_logits logits ! nat \<lfloor>a\<rfloor>)
      else Inl (ValueError ''value outside the support''))"

definition cat_entropy :: "real list \<Rightarrow> real" where
  "cat_entropy logits = - sum_list (map2 (*) (cat_logits logits) (cat_probs logits))"

definition cat_kl :: "real list \<Rightarrow> real list \<Rightarrow> error + real" where
  "cat_kl p q =
     ebind (broadcast2 (-) (cat_logits p) (cat_logits q)) (\<lambda>d.
     ebind (broadcast2 (*) (cat_probs p) d) (\<lambda>t. Inr (sum_list t)))"

text \<open>\<^verbatim>\<open>torch.argmax\<close>: the index of the first maximal entry.\<close>

fun argmax_from :: "real list \<Rightarrow> nat \<Rightarrow> nat \<Rightarrow> real \<Rightarrow> nat" where
  "argmax_from [] i best best_val = best"
| "argmax_from (x # xs) i best best_val =
     (if best_val < x then argmax_from xs (Suc i) i x
      else argmax_from xs (Suc i) best best_val)"

definition argmax :: "real list \<Rightarrow> error + nat" where
  "argmax xs = (case xs of [] \<Rightarrow> Inl IndexError | x # rest \<Rightarrow> Inr (argmax_from rest 1 0 x))"

text \<open>
  A Normal over a vector is a list of (loc, scale) pairs, one for each dimension: the
  constructor broadcasts its two arguments against each other.
\<close>

definition Normal :: "real list \<Rightarrow> real list \<Rightarrow> error + (real \<times> real) list" where
  "Normal loc scale = broadcast2 Pair loc scale"

definition normal_log_prob1 :: "real \<times> real \<Rightarrow> real \<Rightarrow> real" where
  "normal_log_prob1 p x =
     - ((x - fst p)\<^sup>2) / (2 * (snd p)\<^sup>2) - ln (snd p) - ln (sqrt (2 * pi))"

definition normal_entropy1 :: "real \<times> real \<Rightarrow> real" where
  "normal_entropy1 p = 1 / 2 + 1 / 2 * ln (2 * pi) + ln (snd p)"

definition normal_log_prob :: "(real \<times> real) list \<Rightarrow> real list \<Rightarrow> error + real list" where
  "normal_log_prob distr x = broadcast2 normal_log_prob1 distr x"

definition normal_entropy :: "(real \<times> real) list \<Rightarrow> real list" where
  "normal_entropy distr = map normal_entropy1 distr"

subsection \<open>\<^verbatim>\<open>MultiCategorical\<close>\<close>

text \<open>
  \<^verbatim>\<open>torch.split(logits, nvec, dim=-1)\<close>: consecutive pieces of the given sizes, which
  must add up to the length. \<^verbatim>\<open>torch.stack\<close> refuses an empty list.
\<close>

fun split_with_sizes :: "'a list \<Rightarrow> nat list \<Rightarrow> 'a list list" where
  "split_with_sizes xs [] = []"
| "split_with_sizes xs (n # ns) = take n xs # split_with_sizes (drop n xs) ns"

definition torch_split :: "'a list \<Rightarrow> nat list \<Rightarrow> error + 'a list list" where
  "torch_split xs sizes =
     (if sum_list sizes = length xs then Inr (split_with_sizes xs sizes) else Inl RuntimeError)"

definition stack :: "'a list \<Rightarrow> error + 'a list" where
  "stack xs = (if xs = [] then Inl RuntimeError else Inr xs)"

text \<open>
  The class, for one vector of logits (an empty batch shape; a batch is a list of such
  rows). A member Categorical is represented by its logits.
\<close>

record multi_categorical =
  nvec :: "nat list"
  split_logits :: "real list list"
  categoricals :: "real list list"

definition MultiCategorical :: "real list \<Rightarrow> nat list \<Rightarrow> error + multi_categorical" where
  "MultiCategorical logits sizes =
     ebind (torch_split logits sizes) (\<lambda>pieces.
       Inr \<lparr>nvec = sizes, split_logits = pieces, categoricals = pieces\<rparr>)"

text \<open>
  \<open>cat_sample\<close> is the draw of one Categorical from torch's random generator, which is
  part of the world state \<open>'w\<close>.
\<close>

fun sample_each :: "(real list \<Rightarrow> 'w \<Rightarrow> nat \<times> 'w) \<Rightarrow> real list list \<Rightarrow> 'w \<Rightarrow> nat list \<times> 'w" where
  "sample_each cat_sample [] w = ([], w)"
| "sample_each cat_sample (distr # dists) w =
     (let (a, w1) = cat_sample distr w;
          (as, w2) = sample_each cat_sample dists w1
      in (a # as, w2))"

definition multi_sample ::
  "(real list \<Rightarrow> 'w \<Rightarrow> nat \<times> 'w) \<Rightarrow> multi_categorical \<Rightarrow> 'w \<Rightarrow> error + (real list \<times> 'w)" where
  "multi_sample cat_sample m w =
     (let (samples, w1) = sample_each cat_sample (categoricals m) w
      in ebind (stack samples) (\<lambda>a. Inr (map real a, w1)))"

definition multi_log_prob :: "multi_categorical \<Rightarrow> real list \<Rightarrow> error + real" where
  "multi_log_prob m actions =
     ebind (sequence_err
              (map (\<lambda>(i, distr). ebind (getitem actions i) (cat_log_prob distr))
                 (enumerate 0 (categoricals m)))) (\<lambda>log_probs.
     ebind (stack log_probs) (\<lambda>t. Inr (sum_list t)))"

definition multi_entropy :: "multi_categorical \<Rightarrow> error + real" where
  "multi_entropy m =
     ebind (stack (map cat_entropy (categoricals m))) (\<lambda>t. Inr (sum_list t))"

definition multi_mode :: "multi_categorical \<Rightarrow> error + nat list" where
  "multi_mode m = ebind (sequence_err (map argmax (split_logits m))) stack"

text \<open>\<^verbatim>\<open>_kl_multi\<close>: Python's \<open>sum\<close> over the zipped member distributions.\<close>

definition kl_multi :: "multi_categorical \<Rightarrow> multi_categorical \<Rightarrow> error + real" where
  "kl_multi m1 m2 =
     ebind (sequence_err (map (\<lambda>(d1, d2). cat_kl d1 d2) (zip (categoricals m1) (categoricals m2))))
       (\<lambda>kls. Inr (sum_list kls))"

section \<open>The networks\<close>

text \<open>
  \<^verbatim>\<open>Actor.forward\<close> on one row. \<open>net\<close> is the \<^verbatim>\<open>nn.Sequential\<close> of the actor. For the
  continuous case the output is cut in two chunks (the first takes the larger half; an
  output of one entry gives a single chunk, which cannot be unpacked into two names) and
  the second is clamped to [-20, 2].
\<close>

datatype actor_out = MeanLogStd "real list" "real list" | Logits "real list"

definition chunk2 :: "real list \<Rightarrow> error + (real list \<times> real list)" where
  "chunk2 x =
     (if length x = 1 then Inl (ValueError ''not enough values to unpack'')
      else Inr (take ((length x + 1) div 2) x, drop ((length x + 1) div 2) x))"

definition actor_forward :: "bool \<Rightarrow> ('s \<Rightarrow> real list) \<Rightarrow> 's \<Rightarrow> error + actor_out" where
  "actor_forward discrete net state =
     (let x = net state
      in if \<not> discrete
         then ebind (chunk2 x) (\<lambda>(mean, log_std). Inr (MeanLogStd mean (map (clamp (-20) 2) log_std)))
         else Inr (Logits x))"

section \<open>The clipped objective: \<^verbatim>\<open>PPOTrainer.compute_ppo_loss\<close>\<close>

text \<open>
  The batch is a list of rows. The first part of the function builds the distribution of
  every state and gives the new log-probabilities and the entropy term, along the branch
  chosen by \<^verbatim>\<open>self.discrete\<close>.
\<close>

definition discrete_log_probs_entropy ::
  "nat list \<Rightarrow> ('s \<Rightarrow> real list) \<Rightarrow> 's list \<Rightarrow> real list list \<Rightarrow> error + (real list \<times> real)" where
  "discrete_log_probs_entropy n_logits actor_net states actions =
     ebind (sequence_err
              (map (\<lambda>s. ebind (actor_forward True actor_net s) (\<lambda>out.
                      case out of
                        Logits logits \<Rightarrow> MultiCategorical logits n_logits
                      | MeanLogStd mean log_std \<Rightarrow> Inl RuntimeError)) states)) (\<lambda>distr.
     ebind (ebind (broadcast2 multi_log_prob distr actions) sequence_err) (\<lambda>new_log_probs.
     ebind (sequence_err (map multi_entropy distr)) (\<lambda>entropies.
       Inr (new_log_probs, tensor_mean entropies))))"

definition continuous_log_probs_entropy ::
  "('s \<Rightarrow> real list) \<Rightarrow> 's list \<Rightarrow> real list list \<Rightarrow> error + (real list \<times> real)" where
  "continuous_log_probs_entropy actor_net states actions =
     ebind (sequence_err
              (map (\<lambda>s. ebind (actor_forward False actor_net s) (\<lambda>out.
                      case out of
                        MeanLogStd mean log_std \<Rightarrow> Normal mean (map exp log_std)
                      | Logits logits \<Rightarrow> Inl RuntimeError)) states)) (\<lambda>distr.
     ebind (ebind (broadcast2 normal_log_prob distr actions) sequence_err) (\<lambda>log_probs.
       Inr (map sum_list log_probs, tensor_mean (concat (map normal_entropy distr)))))"

definition compute_ppo_loss ::
  "bool \<Rightarrow> nat list \<Rightarrow> real \<Rightarrow> ('s \<Rightarrow> real list) \<Rightarrow> ('s \<Rightarrow> real) \<Rightarrow> 's list \<Rightarrow> real list list
     \<Rightarrow> real list \<Rightarrow> real list \<Rightarrow> real list \<Rightarrow> error + (real \<times> real \<times> real)" where
  "compute_ppo_loss discrete n_logits clip_ratio actor_net critic_net states actions
       old_log_probs advantages returns =
     ebind (if discrete then discrete_log_probs_entropy n_logits actor_net states actions
            else continuous_log_probs_entropy actor_net states actions)
       (\<lambda>(new_log_probs, entropy).
     ebind (broadcast2 (-) new_log_probs old_log_probs) (\<lambda>log_ratio.
     let ratio = map exp log_ratio in
     ebind (broadcast2 (*) (map (clamp (1 - clip_ratio) (1 + clip_ratio)) ratio) advantages)
       (\<lambda>clip_adv.
     ebind (broadcast2 (*) ratio advantages) (\<lambda>ratio_adv.
     ebind (broadcast2 min ratio_adv clip_adv) (\<lambda>surrogate.
     let actor_loss = - tensor_mean surrogate;
         vals = map critic_net states in
     ebind (broadcast2 (\<lambda>v r. (v - r)\<^sup>2) vals returns) (\<lambda>squared_error.
     let value_loss = tensor_mean squared_error;
         total_loss = actor_loss + 0.5 * value_loss - 0.01 * entropy in
     ebind (broadcast2 (-) old_log_probs new_log_probs) (\<lambda>log_diff.
       Inr (total_loss, value_loss, tensor_mean log_diff))))))))"

section \<open>The update: \<^verbatim>\<open>PPOTrainer.train_step\<close>\<close>

text \<open>
  \<open>'p\<close> is the state of both networks and both optimizers. \<open>loss p\<close> is
  \<open>compute_ppo_loss\<close> under the parameters \<open>p\<close>; \<open>optimizer_step\<close> is one update
  (zeroing the gradients, backpropagation of the total loss on the batch, clipping of both
  gradient norms, one step of each Adam optimizer). The loop state is the parameters and
  the three lists of metrics.
\<close>

fun epoch_loop ::
  "('p \<Rightarrow> error + (real \<times> real \<times> real)) \<Rightarrow> ('p \<Rightarrow> 'p) \<Rightarrow> real \<Rightarrow> nat \<Rightarrow> 'p
     \<Rightarrow> real list \<Rightarrow> real list \<Rightarrow> real list \<Rightarrow> error + ('p \<times> real list \<times> real list \<times> real list)" where
  "epoch_loop loss optimizer_step target_kl 0 p total_losses value_losses kl_divs =
     Inr (p, total_losses, value_losses, kl_divs)"
| "epoch_loop loss optimizer_step target_kl (Suc n) p total_losses value_losses kl_divs =
     (case loss p of
        Inl e \<Rightarrow> Inl e
      | Inr (total_loss, value_loss, kl_div) \<Rightarrow>
         (if kl_div > 1.5 * target_kl
          then Inr (p, total_losses @ [total_loss], value_losses @ [value_loss], kl_divs @ [kl_div])
          else epoch_loop loss optimizer_step target_kl n (optimizer_step p)
                 (total_losses @ [total_loss]) (value_losses @ [value_loss]) (kl_divs @ [kl_div])))"

definition train_step ::
  "bool \<Rightarrow> nat list \<Rightarrow> real \<Rightarrow> real \<Rightarrow> ('p \<Rightarrow> 's \<Rightarrow> real list) \<Rightarrow> ('p \<Rightarrow> 's \<Rightarrow> real) \<Rightarrow> ('p \<Rightarrow> 'p) \<Rightarrow> 'p
     \<Rightarrow> 's list \<Rightarrow> real list list \<Rightarrow> real list \<Rightarrow> real list \<Rightarrow> real list
     \<Rightarrow> error + ('p \<times> real \<times> real \<times> real)" where
  "train_step discrete n_logits clip_ratio target_kl actor_net critic_net optimizer_step p
       states actions old_log_probs advantages returns =
     (let normalized =
            map (\<lambda>a. (a - tensor_mean advantages) / (tensor_std advantages + 1 / 10 ^ 8)) advantages
      in ebind (epoch_loop
                  (\<lambda>q. compute_ppo_loss discrete n_logits clip_ratio (actor_net q) (critic_net q)
                          states actions old_log_probs normalized returns)
                  optimizer_step target_kl 10 p [] [] [])
           (\<lambda>(q, total_losses, value_losses, kl_divs).
              Inr (q, tensor_mean total_losses, tensor_mean value_losses, tensor_mean kl_divs)))"

section \<open>Collecting experience: \<^verbatim>\<open>PPOTrainer.collect_rollout\<close>\<close>

text \<open>
  The environment and torch's random generator form the world state \<open>'w\<close>, threaded
  through every call: \<open>env_reset w\<close> gives the first observation,
  \<open>env_step action w\<close> gives (next_state, reward, terminated, truncated), and
  \<open>cat_sample\<close>, \<open>normal_sample\<close> are the draws of \<^verbatim>\<open>distr.sample()\<close>. The \<open>info\<close>
  records are not used by the function and are left out. The calls of the environment
  return; an exception raised inside the environment is not part of the model.

  The first part of the loop body evaluates the policy on the current state without
  gradients: the action, its joint log-probability and the value of the state.
\<close>

definition select_action ::
  "bool \<Rightarrow> nat list \<Rightarrow> ('o \<Rightarrow> real list) \<Rightarrow> ('o \<Rightarrow> real)
     \<Rightarrow> (real list \<Rightarrow> 'w \<Rightarrow> nat \<times> 'w) \<Rightarrow> ((real \<times> real) list \<Rightarrow> 'w \<Rightarrow> real list \<times> 'w)
     \<Rightarrow> 'o \<Rightarrow> 'w \<Rightarrow> error + (real list \<times> real \<times> real \<times> 'w)" where
  "select_action discrete n_logits actor_net critic_net cat_sample normal_sample state w =
     ebind (actor_forward discrete actor_net state) (\<lambda>out.
       if discrete then
         (case out of
            Logits logits \<Rightarrow>
              ebind (MultiCategorical logits n_logits) (\<lambda>distr.
              ebind (multi_sample cat_sample distr w) (\<lambda>(action, w1).
              ebind (multi_log_prob distr action) (\<lambda>log_prob.
                Inr (action, log_prob, critic_net state, w1))))
          | MeanLogStd mean log_std \<Rightarrow> Inl RuntimeError)
       else
         (case out of
            MeanLogStd mean log_std \<Rightarrow>
              ebind (Normal mean (map exp log_std)) (\<lambda>distr.
              let (action, w1) = normal_sample distr w in
              ebind (normal_log_prob distr action) (\<lambda>log_prob.
                Inr (action, sum_list log_prob, critic_net state, w1)))
          | Logits logits \<Rightarrow> Inl RuntimeError))"

text \<open>The local variables of the function: the six buffers and the loop state.\<close>

record ('o, 'w) rollout =
  ro_states :: "'o list"
  ro_actions :: "real list list"
  ro_rewards :: "real list"
  ro_values :: "real list"
  ro_log_probs :: "real list"
  ro_dones :: "bool list"
  ro_state :: 'o
  ro_world :: 'w
  ro_episode_rewards :: "real list"
  ro_current_episode_reward :: real

definition rollout_body ::
  "('o \<Rightarrow> 'w \<Rightarrow> error + (real list \<times> real \<times> real \<times> 'w))
     \<Rightarrow> (real list \<Rightarrow> 'w \<Rightarrow> ('o \<times> real \<times> bool \<times> bool) \<times> 'w) \<Rightarrow> ('w \<Rightarrow> 'o \<times> 'w)
     \<Rightarrow> ('o, 'w) rollout \<Rightarrow> error + ('o, 'w) rollout" where
  "rollout_body policy env_step env_reset r =
     ebind (policy (ro_state r) (ro_world r)) (\<lambda>(action, log_prob, val, w1).
       let ((next_state, reward, terminated, truncated), w2) = env_step action w1;
           r1 = r\<lparr>ro_states := ro_states r @ [ro_state r],
                  ro_actions := ro_actions r @ [action],
                  ro_rewards := ro_rewards r @ [reward],
                  ro_values := ro_values r @ [val],
                  ro_log_probs := ro_log_probs r @ [log_prob],
                  ro_dones := ro_dones r @ [terminated],
                  ro_current_episode_reward := ro_current_episode_reward r + reward\<rparr>
       in if terminated \<or> truncated
          then (let (state, w3) = env_reset w2
                in Inr (r1\<lparr>ro_episode_rewards :=
                              ro_episode_rewards r1 @ [ro_current_episode_reward r1],
                            ro_current_episode_reward := 0,
                            ro_state := state,
                            ro_world := w3\<rparr>))
          else Inr (r1\<lparr>ro_state := next_state, ro_world := w2\<rparr>))"

text \<open>\<^verbatim>\<open>for _ in trange(max_steps)\<close>: the body, \<open>max_steps\<close> times, unless it raises.\<close>

fun rollout_loop ::
  "(('o, 'w) rollout \<Rightarrow> error + ('o, 'w) rollout) \<Rightarrow> nat \<Rightarrow> ('o, 'w) rollout
     \<Rightarrow> error + ('o, 'w) rollout" where
  "rollout_loop body 0 r = Inr r"
| "rollout_loop body (Suc n) r =
     (case body r of Inl e \<Rightarrow> Inl e | Inr r1 \<Rightarrow> rollout_loop body n r1)"

text \<open>
  The function returns the six buffers and the final value; the result here is the final
  record, which holds the buffers, and the final value.
\<close>

definition collect_rollout ::
  "bool \<Rightarrow> nat list \<Rightarrow> ('o \<Rightarrow> real list) \<Rightarrow> ('o \<Rightarrow> real)
     \<Rightarrow> (real list \<Rightarrow> 'w \<Rightarrow> nat \<times> 'w) \<Rightarrow> ((real \<times> real) list \<Rightarrow> 'w \<Rightarrow> real list \<times> 'w)
     \<Rightarrow> (real list \<Rightarrow> 'w \<Rightarrow> ('o \<times> real \<times> bool \<times> bool) \<times> 'w) \<Rightarrow> ('w \<Rightarrow> 'o \<times> 'w)
     \<Rightarrow> nat \<Rightarrow> 'w \<Rightarrow> error + (('o, 'w) rollout \<times> real)" where
  "collect_rollout discrete n_logits actor_net critic_net cat_sample normal_sample
       env_step env_reset max_steps w =
     (let (state, w0) = env_reset w;
          r0 = \<lparr>ro_states = [], ro_actions = [], ro_rewards = [], ro_values = [],
                ro_log_probs = [], ro_dones = [], ro_state = state, ro_world = w0,
                ro_episode_rewards = [], ro_current_episode_reward = 0\<rparr>
      in ebind (rollout_loop
                  (rollout_body
                     (select_action discrete n_logits actor_net critic_net cat_sample normal_sample)
                     env_step env_reset)
                  max_steps r0) (\<lambda>r.
           let final_value = critic_net (ro_state r)
           in Inr (r, final_value)))"

text \<open>
  The call of \<open>compute_gae\<close> in \<^verbatim>\<open>PPOTrainer.train\<close> on the result of a rollout: the
  boolean dones become the floats 0 and 1.
\<close>

definition train_compute_gae ::
  "real \<Rightarrow> real \<Rightarrow> ('o, 'w) rollout \<times> real \<Rightarrow> error + (real list \<times> real list)" where
  "train_compute_gae gamma gae_lambda res =
     (case res of (r, final_value) \<Rightarrow>
        compute_gae gamma gae_lambda (ro_rewards r) (ro_values r) (map of_bool (ro_dones r))
          final_value)"

section \<open>Checkpoints: \<^verbatim>\<open>PPOTrainer.load_model\<close>\<close>

text \<open>
  The file system maps a path to what is stored there (a file of any content, or a
  directory); \<open>joinpath\<close> is the \<open>/\<close> of \<^verbatim>\<open>pathlib\<close> and \<open>cwd\<close> the working
  directory. \<open>torch_load\<close> is \<^verbatim>\<open>torch.load\<close>: it raises on what it cannot read, and
  otherwise gives an object, which is represented by its subscript operation
  \<^verbatim>\<open>checkpoint[key]\<close>. For a dictionary, as \<^verbatim>\<open>save_model\<close> writes it, that operation
  is \<open>dict_getitem\<close>, and a missing key is a KeyError.

  \<open>module_load\<close> and \<open>optimizer_load\<close> are \<^verbatim>\<open>load_state_dict\<close> of a network and of an
  optimizer: from the current state and the state dictionary they give the exception
  raised, if any (keys or sizes that do not fit), and the state the call leaves, which
  after an exception may be overwritten in part. The result of \<open>load_model\<close> is the
  exception raised, if any, with the trainer as the call leaves it.
\<close>

definition dict_getitem :: "(string \<rightharpoonup> 'v) \<Rightarrow> string \<Rightarrow> error + 'v" where
  "dict_getitem d k = (case d k of None \<Rightarrow> Inl (KeyError k) | Some v \<Rightarrow> Inr v)"

record ('m, 'o) trainer_state =
  actor_state :: 'm
  critic_state :: 'm
  actor_optimizer_state :: 'o
  critic_optimizer_state :: 'o

definition load_model ::
  "(string \<Rightarrow> string \<Rightarrow> string) \<Rightarrow> string \<Rightarrow> (string \<rightharpoonup> 'f)
     \<Rightarrow> ('f \<Rightarrow> error + (string \<Rightarrow> error + 'v))
     \<Rightarrow> ('m \<Rightarrow> 'v \<Rightarrow> error option \<times> 'm) \<Rightarrow> ('o \<Rightarrow> 'v \<Rightarrow> error option \<times> 'o)
     \<Rightarrow> string \<Rightarrow> ('m, 'o) trainer_state \<Rightarrow> error option \<times> ('m, 'o) trainer_state" where
  "load_model joinpath cwd fs torch_load module_load optimizer_load filename tr =
     (let checkpoint_root = joinpath cwd ''checkpoints'';
          path = joinpath checkpoint_root filename
      in case fs path of
           None \<Rightarrow> (Some (ValueError (''Checkpoint '' @ path @ '' doesn't exist!'')), tr)
         | Some stored \<Rightarrow>
      (case torch_load stored of
         Inl e \<Rightarrow> (Some e, tr)
       | Inr checkpoint \<Rightarrow>
      (case checkpoint ''actor_state_dict'' of
         Inl e \<Rightarrow> (Some e, tr)
       | Inr a \<Rightarrow>
      (let tr1 = tr\<lparr>actor_state := snd (module_load (actor_state tr) a)\<rparr>
       in case fst (module_load (actor_state tr) a) of
            Some e \<Rightarrow> (Some e, tr1)
          | None \<Rightarrow>
      (case checkpoint ''critic_state_dict'' of
         Inl e \<Rightarrow> (Some e, tr1)
       | Inr c \<Rightarrow>
      (let tr2 = tr1\<lparr>critic_state := snd (module_load (critic_state tr1) c)\<rparr>
       in case fst (module_load (critic_state tr1) c) of
            Some e \<Rightarrow> (Some e, tr2)
          | None \<Rightarrow>
      (case checkpoint ''actor_optimizer_state_dict'' of
         Inl e \<Rightarrow> (Some e, tr2)
       | Inr ao \<Rightarrow>
      (let tr3 = tr2\<lparr>actor_optimizer_state :=
                        snd (optimizer_load (actor_optimizer_state tr2) ao)\<rparr>
       in case fst (optimizer_load (actor_optimizer_state tr2) ao) of
            Some e \<Rightarrow> (Some e, tr3)
          | None \<Rightarrow>
      (case checkpoint ''critic_optimizer_state_dict'' of
         Inl e \<Rightarrow> (Some e, tr3)
       | Inr co \<Rightarrow>
           (fst (optimizer_load (critic_optimizer_state tr3) co),
            tr3\<lparr>critic_optimizer_state :=
                   snd (optimizer_load (critic_optimizer_state tr3) co)\<rparr>))))))))))"

section \<open>Construction: the action space in \<^verbatim>\<open>PPOTrainer.__init__\<close>\<close>

text \<open>
  The kinds of gym space the constructor tells apart: \<open>MultiDiscrete sizes\<close>,
  \<open>Discrete n\<close>, \<open>Box shape\<close>, and any other space, given by its printed form. The result
  is the triple (\<open>n_logits\<close>, \<open>action_dim\<close>, \<open>discrete\<close>) that the constructor stores;
  \<open>n_logits\<close> is \<open>None\<close> for a Box.
\<close>

datatype action_space =
    MultiDiscrete "nat list"
  | Discrete nat
  | Box "nat list"
  | OtherSpace string

definition init_action_space :: "action_space \<Rightarrow> error + (nat list option \<times> nat \<times> bool)" where
  "init_action_space space =
     (case space of
        MultiDiscrete sizes \<Rightarrow> Inr (Some sizes, length sizes, True)
      | Discrete n \<Rightarrow> Inr (Some [n], 1, True)
      | Box shape \<Rightarrow> ebind (getitem shape 0) (\<lambda>d. Inr (None, d, False))
      | OtherSpace s \<Rightarrow> Inl NotImplementedError)"

text \<open>The width of the actor's last layer, from \<^verbatim>\<open>Actor.__init__\<close>.\<close>

definition actor_output_width :: "nat list option \<Rightarrow> nat \<Rightarrow> bool \<Rightarrow> nat" where
  "actor_output_width n_actions_per_dim action_dim discrete =
     (if discrete then sum_list (case n_actions_per_dim of None \<Rightarrow> [] | Some ns \<Rightarrow> ns)
      else action_dim * 2)"

section \<open>Properties of the advantage estimator\<close>

text \<open>
  What the backward loop leaves in \<open>advantages\<close> when the three tensors have one length:
  it raises nothing, indices at and above the counter are untouched, and every index below
  it holds the recursion \<open>A t = delta t + gamma * lambda * (1 - done t) * A (t + 1)\<close>,
  with the incoming \<open>last_gae\<close> in the place of \<open>A n\<close>.
\<close>

lemma gae_loop_spec:
  fixes gamma :: "'a::comm_ring_1"
  assumes "n \<le> length rewards" "length vals = length rewards" "length dones = length rewards"
    "length advantages = length rewards"
  shows "\<exists>adv lg. gae_loop gamma lam rewards vals dones nv n advantages last_gae = Inr (adv, lg)
      \<and> length adv = length rewards
      \<and> (\<forall>t. n \<le> t \<longrightarrow> adv ! t = advantages ! t)
      \<and> (\<forall>t<n. adv ! t = td_delta gamma rewards vals dones nv t
              + gamma * lam * (1 - dones ! t) * (if Suc t = n then last_gae else adv ! Suc t))"
  using assms
proof (induction n arbitrary: advantages last_gae)
  case 0
  then show ?case by simp
next
  case (Suc n)
  let ?g = "td_delta gamma rewards vals dones nv n + gamma * lam * (1 - dones ! n) * last_gae"
  have n: "n < length rewards" using Suc.prems by simp
  have step: "gae_loop gamma lam rewards vals dones nv (Suc n) advantages last_gae
      = gae_loop gamma lam rewards vals dones nv n (advantages[n := ?g]) ?g"
    using n Suc.prems by (auto simp: getitem_def td_delta_def Let_def)
  from Suc.IH[of "advantages[n := ?g]" ?g] Suc.prems n
  obtain adv lg
    where r: "gae_loop gamma lam rewards vals dones nv n (advantages[n := ?g]) ?g = Inr (adv, lg)"
      and len: "length adv = length rewards"
      and keep: "\<forall>t. n \<le> t \<longrightarrow> adv ! t = (advantages[n := ?g]) ! t"
      and rec: "\<forall>t<n. adv ! t = td_delta gamma rewards vals dones nv t
              + gamma * lam * (1 - dones ! t) * (if Suc t = n then ?g else adv ! Suc t)"
    by auto
  have an: "adv ! n = ?g" using keep n Suc.prems by simp
  have "\<forall>t. Suc n \<le> t \<longrightarrow> adv ! t = advantages ! t" using keep by simp
  moreover have "\<forall>t<Suc n. adv ! t = td_delta gamma rewards vals dones nv t
              + gamma * lam * (1 - dones ! t) * (if Suc t = Suc n then last_gae else adv ! Suc t)"
  proof (intro allI impI)
    fix t assume "t < Suc n"
    then consider "t = n" | "t < n" by linarith
    then show "adv ! t = td_delta gamma rewards vals dones nv t
              + gamma * lam * (1 - dones ! t) * (if Suc t = Suc n then last_gae else adv ! Suc t)"
    proof cases
      case 1
      then show ?thesis using an by simp
    next
      case 2
      then show ?thesis using rec an by (cases "Suc t = n") auto
    qed
  qed
  ultimately show ?case using step r len by simp
qed

lemma broadcast2_same:
  "length xs = length ys \<Longrightarrow> broadcast2 f xs ys = Inr (map2 f xs ys)"
  by (simp add: broadcast2_def)

text \<open>
  Claim C1. For rewards, values and dones of one length \<open>H\<close> and any bootstrap value,
  \<open>compute_gae\<close> returns a pair (advantages, returns) of tensors of length \<open>H\<close> with
  \<open>returns[t] = advantages[t] + values[t]\<close> at every index \<open>t < H\<close>.
\<close>

theorem gae_returns_are_advantages_plus_values:
  fixes gamma :: "'a::comm_ring_1"
  assumes "length vals = length rewards" "length dones = length rewards"
  shows "\<exists>advantages returns.
      compute_gae gamma lam rewards vals dones nv = Inr (advantages, returns)
      \<and> length advantages = length rewards \<and> length returns = length rewards
      \<and> (\<forall>t<length rewards. returns ! t = advantages ! t + vals ! t)"
proof -
  from gae_loop_spec[of "length rewards" rewards vals dones "replicate (length rewards) 0"
      gamma lam nv 0] assms
  obtain adv lg
    where r: "gae_loop gamma lam rewards vals dones nv (length rewards)
               (replicate (length rewards) 0) 0 = Inr (adv, lg)"
      and len: "length adv = length rewards"
    by auto
  have "compute_gae gamma lam rewards vals dones nv = Inr (adv, map2 (+) adv vals)"
    using r len assms by (simp add: compute_gae_def broadcast2_same)
  then show ?thesis using len assms by simp
qed

theorem gae_returns_are_advantages_plus_values_witness:
  "length [3, 4::int] = length [1, 2::int] \<and> length [0, 1::int] = length [1, 2::int]
   \<and> (\<exists>advantages returns.
      compute_gae 2 3 [1, 2] [3, 4] [0, 1] (5::int) = Inr (advantages, returns)
      \<and> length advantages = length [1, 2::int] \<and> length returns = length [1, 2::int]
      \<and> (\<forall>t<length [1, 2::int]. returns ! t = advantages ! t + [3, 4] ! t))"
  using gae_returns_are_advantages_plus_values [of "[3, 4::int]" "[1, 2]" "[0, 1]" 2 3 5]
  by simp

text \<open>
  The scenario of the specification, evaluated: rewards \<open>[1, 1, 1]\<close>, values
  \<open>[0, 0, 0]\<close>, dones \<open>[0, 0, 1]\<close>, \<open>gamma = 0.99\<close>, \<open>lambda = 0.95\<close>, bootstrap
  value \<open>0\<close>.
\<close>

lemma gae_scenario:
  "compute_gae (99/100) (95/100) [1, 1, 1] [0, 0, 0] [0, 0, 1] (0::real)
     = Inr ([11300161 / 4000000, 3881 / 2000, 1], [11300161 / 4000000, 3881 / 2000, 1])"
  by (simp add: compute_gae_def getitem_def broadcast2_def numeral_3_eq_3 Let_def)

text \<open>
  Claim C5, as the specification words it, gives \<open>A_0\<close> as approximately \<open>2.8273\<close>. The
  code yields \<open>A_0 = 11300161 / 4000000 = 2.82504025\<close>, more than \<open>0.002\<close> away from that
  figure.
\<close>

theorem gae_scenario_first_advantage_not_2_8273:
  "fst (projr (compute_gae (99/100) (95/100) [1, 1, 1] [0, 0, 0] [0, 0, 1] (0::real))) ! 0
     = 11300161 / 4000000
   \<and> \<not> \<bar>fst (projr (compute_gae (99/100) (95/100) [1, 1, 1] [0, 0, 0] [0, 0, 1] (0::real))) ! 0
           - 28273 / 10000\<bar> \<le> 2 / 1000"
  unfolding gae_scenario by simp

text \<open>
  Claim C5, amended. On the scenario \<open>compute_gae\<close> yields \<open>A_2 = 1\<close>,
  \<open>A_1 = 1 + 0.99 * 0.95 * 1\<close> and \<open>A_0 = 1 + 0.99 * 0.95 * A_1\<close>, which are \<open>1.9405\<close>
  and \<open>2.8250\<close> to four decimals, and the returns equal the advantages.
\<close>

theorem gae_scenario_values:
  "compute_gae (99/100) (95/100) [1, 1, 1] [0, 0, 0] [0, 0, 1] (0::real)
     = Inr ([1 + 99/100 * (95/100) * (1 + 99/100 * (95/100) * 1), 1 + 99/100 * (95/100) * 1, 1],
            [1 + 99/100 * (95/100) * (1 + 99/100 * (95/100) * 1), 1 + 99/100 * (95/100) * 1, 1])
   \<and> \<bar>1 + 99/100 * (95/100) * 1 - (19405 / 10000::real)\<bar> \<le> 5 / 100000
   \<and> \<bar>1 + 99/100 * (95/100) * (1 + 99/100 * (95/100) * 1) - (28250 / 10000::real)\<bar>
        \<le> 5 / 100000"
  unfolding gae_scenario by simp

text \<open>
  Claim C6. With the decay \<open>lambda = 0\<close>, for tensors of one length \<open>H\<close>, every
  advantage is the one-step temporal-difference error
  \<open>reward[t] + gamma * next_value * (1 - done[t]) - value[t]\<close>, where \<open>next_value\<close> is
  \<open>value[t + 1]\<close>, or the bootstrap value at \<open>t = H - 1\<close>: nothing is carried over from
  later steps.
\<close>

theorem gae_lambda_zero_is_td_error:
  fixes gamma :: "'a::comm_ring_1"
  assumes "length vals = length rewards" "length dones = length rewards"
  shows "\<exists>advantages returns.
      compute_gae gamma 0 rewards vals dones nv = Inr (advantages, returns)
      \<and> (\<forall>t<length rewards. advantages ! t =
            rewards ! t
              + gamma * (if Suc t = length rewards then nv else vals ! (t + 1)) * (1 - dones ! t)
              - vals ! t)"
proof -
  from gae_loop_spec[of "length rewards" rewards vals dones "replicate (length rewards) 0"
      gamma 0 nv 0] assms
  obtain adv lg
    where r: "gae_loop gamma 0 rewards vals dones nv (length rewards)
               (replicate (length rewards) 0) 0 = Inr (adv, lg)"
      and len: "length adv = length rewards"
      and rec: "\<forall>t<length rewards. adv ! t = td_delta gamma rewards vals dones nv t
              + gamma * 0 * (1 - dones ! t) * (if Suc t = length rewards then 0 else adv ! Suc t)"
    by auto
  have "compute_gae gamma 0 rewards vals dones nv = Inr (adv, map2 (+) adv vals)"
    using r len assms by (simp add: compute_gae_def broadcast2_same)
  moreover have "\<forall>t<length rewards. adv ! t = td_delta gamma rewards vals dones nv t"
    using rec by simp
  ultimately show ?thesis by (simp add: td_delta_def)
qed

theorem gae_lambda_zero_is_td_error_witness:
  "length [3, 4::int] = length [1, 2::int] \<and> length [0, 1::int] = length [1, 2::int]
   \<and> (\<exists>advantages returns.
      compute_gae 2 0 [1, 2] [3, 4] [0, 1] (5::int) = Inr (advantages, returns)
      \<and> (\<forall>t<length [1, 2::int]. advantages ! t =
            [1, 2] ! t
              + 2 * (if Suc t = length [1, 2::int] then 5 else [3, 4] ! (t + 1)) * (1 - [0, 1] ! t)
              - [3, 4] ! t))"
  using gae_lambda_zero_is_td_error [of "[3, 4::int]" "[1, 2]" "[0, 1]" 2 5]
  by simp

section \<open>Properties of MultiCategorical\<close>

lemma sequence_err_map_Inr:
  "(\<And>x. x \<in> set xs \<Longrightarrow> f x = Inr (g x)) \<Longrightarrow> sequence_err (map f xs) = Inr (map g xs)"
  by (induction xs) (simp_all add: ebind_def)

lemma length_split_with_sizes [simp]: "length (split_with_sizes xs sizes) = length sizes"
  by (induction sizes arbitrary: xs) simp_all

lemma nth_split_with_sizes:
  "i < length sizes \<Longrightarrow>
     split_with_sizes xs sizes ! i = take (sizes ! i) (drop (sum_list (take i sizes)) xs)"
proof (induction sizes arbitrary: xs i)
  case Nil
  then show ?case by simp
next
  case (Cons n ns)
  show ?case
  proof (cases i)
    case 0
    then show ?thesis by simp
  next
    case (Suc j)
    then have "j < length ns" using Cons.prems by simp
    from Cons.IH[OF this, of "drop n xs"] Suc show ?thesis by (simp add: add.commute)
  qed
qed

lemma length_nth_split_with_sizes:
  "sum_list sizes \<le> length xs \<Longrightarrow> i < length sizes \<Longrightarrow>
     length (split_with_sizes xs sizes ! i) = sizes ! i"
proof (induction sizes arbitrary: xs i)
  case Nil
  then show ?case by simp
next
  case (Cons n ns)
  show ?case
  proof (cases i)
    case 0
    then show ?thesis using Cons.prems by simp
  next
    case (Suc j)
    then show ?thesis using Cons.prems Cons.IH[of "drop n xs" j] by simp
  qed
qed

lemma argmax_from_spec:
  assumes "best < length pre" "bv = (pre @ xs) ! best"
    "\<forall>j<length pre. (pre @ xs) ! j \<le> bv" "\<forall>j<best. (pre @ xs) ! j < bv"
  shows "argmax_from xs (length pre) best bv < length (pre @ xs)
    \<and> (\<forall>j<length (pre @ xs). (pre @ xs) ! j \<le> (pre @ xs) ! argmax_from xs (length pre) best bv)
    \<and> (\<forall>j<argmax_from xs (length pre) best bv.
          (pre @ xs) ! j < (pre @ xs) ! argmax_from xs (length pre) best bv)"
  using assms
proof (induction xs arbitrary: pre best bv)
  case Nil
  then show ?case by simp
next
  case (Cons x xs)
  have app: "pre @ x # xs = (pre @ [x]) @ xs" by simp
  show ?case
  proof (cases "bv < x")
    case True
    have a: "length pre < length (pre @ [x])" by simp
    have b: "x = ((pre @ [x]) @ xs) ! length pre" by (simp add: nth_append)
    have c: "\<forall>j<length (pre @ [x]). ((pre @ [x]) @ xs) ! j \<le> x"
    proof (intro allI impI)
      fix j assume "j < length (pre @ [x])"
      then consider "j < length pre" | "j = length pre" by force
      then show "((pre @ [x]) @ xs) ! j \<le> x"
      proof cases
        case 1
        then have "(pre @ x # xs) ! j \<le> bv" using Cons.prems(3) by blast
        then show ?thesis using True by simp
      next
        case 2
        then show ?thesis by (simp add: nth_append)
      qed
    qed
    have d: "\<forall>j<length pre. ((pre @ [x]) @ xs) ! j < x"
    proof (intro allI impI)
      fix j assume "j < length pre"
      then have "(pre @ x # xs) ! j \<le> bv" using Cons.prems(3) by blast
      then show "((pre @ [x]) @ xs) ! j < x" using True by simp
    qed
    from Cons.IH[of "length pre" "pre @ [x]" x, OF a b c d] True
    show ?thesis unfolding app by simp
  next
    case False
    have a: "best < length (pre @ [x])" using Cons.prems(1) by simp
    have b: "bv = ((pre @ [x]) @ xs) ! best" using Cons.prems(2) by simp
    have c: "\<forall>j<length (pre @ [x]). ((pre @ [x]) @ xs) ! j \<le> bv"
    proof (intro allI impI)
      fix j assume "j < length (pre @ [x])"
      then consider "j < length pre" | "j = length pre" by force
      then show "((pre @ [x]) @ xs) ! j \<le> bv"
      proof cases
        case 1
        then show ?thesis using Cons.prems(3) by simp
      next
        case 2
        then show ?thesis using False by (simp add: nth_append)
      qed
    qed
    have d: "\<forall>j<best. ((pre @ [x]) @ xs) ! j < bv" using Cons.prems(4) by simp
    from Cons.IH[of best "pre @ [x]" bv, OF a b c d] False
    show ?thesis unfolding app by simp
  qed
qed

lemma argmax_spec:
  assumes "xs \<noteq> []"
  shows "\<exists>k. argmax xs = Inr k \<and> k < length xs \<and> (\<forall>j<length xs. xs ! j \<le> xs ! k)
           \<and> (\<forall>j<k. xs ! j < xs ! k)"
proof -
  from assms obtain x rest where xs: "xs = x # rest" by (cases xs) auto
  from argmax_from_spec[of 0 "[x]" x rest] 
  show ?thesis by (simp add: xs argmax_def)
qed

lemma cat_kl_same_length:
  "length p = length q \<Longrightarrow>
     cat_kl p q = Inr (sum_list (map2 (*) (cat_probs p) (map2 (-) (cat_logits p) (cat_logits q))))"
  by (simp add: cat_kl_def ebind_def broadcast2_def cat_logits_def cat_probs_def)

lemma sum_list_map2_zero:
  "sum_list (map2 (*) (ps :: real list) (map2 (-) ls ls)) = 0"
  by (induction ps ls rule: list_induct2') simp_all

lemma cat_kl_self: "cat_kl p p = Inr 0"
  by (simp add: cat_kl_same_length sum_list_map2_zero)


lemma cat_log_prob_index:
  "k < length logits \<Longrightarrow> cat_log_prob logits (real k) = Inr (cat_logits logits ! k)"
  by (simp add: cat_log_prob_def)

text \<open>
  Claim C7. Take a MultiCategorical built from a logits vector that the cardinalities
  \<open>sizes\<close> partition (at least one dimension, every cardinality positive), a second one
  of the same shape, and an action whose components lie in the supports. Then the member
  distribution of dimension \<open>i\<close> is the Categorical on the \<open>i\<close>-th piece of the logits;
  the joint log-probability is the sum of the members' log-probabilities of the
  components; the joint entropy is the sum of the members' entropies; the mode is the list
  of the members' arg-max indices, each the index of a maximal logit of its piece; the
  divergence between the two is the sum of the members' divergences; and the divergence of
  a distribution from itself is 0.
\<close>

theorem multi_categorical_additive:
  assumes sum1: "sum_list sizes = length logits" and sum2: "sum_list sizes = length logits2"
    and ne: "sizes \<noteq> []" and pos: "\<forall>i<length sizes. 0 < sizes ! i"
    and la: "length sizes \<le> length actions"
    and sup: "\<forall>i<length sizes. \<exists>k<sizes ! i. actions ! i = real k"
  shows "\<exists>m m2 log_probs modes kls.
     MultiCategorical logits sizes = Inr m \<and> MultiCategorical logits2 sizes = Inr m2
     \<and> length (categoricals m) = length sizes \<and> split_logits m = categoricals m
     \<and> (\<forall>i<length sizes.
           categoricals m ! i = take (sizes ! i) (drop (sum_list (take i sizes)) logits))
     \<and> length log_probs = length sizes
     \<and> (\<forall>i<length sizes. cat_log_prob (categoricals m ! i) (actions ! i) = Inr (log_probs ! i))
     \<and> multi_log_prob m actions = Inr (sum_list log_probs)
     \<and> multi_entropy m = Inr (sum_list (map cat_entropy (categoricals m)))
     \<and> length modes = length sizes
     \<and> (\<forall>i<length sizes. argmax (split_logits m ! i) = Inr (modes ! i) \<and> modes ! i < sizes ! i
           \<and> (\<forall>j<sizes ! i. split_logits m ! i ! j \<le> split_logits m ! i ! (modes ! i)))
     \<and> multi_mode m = Inr modes
     \<and> length kls = length sizes
     \<and> (\<forall>i<length sizes. cat_kl (categoricals m ! i) (categoricals m2 ! i) = Inr (kls ! i))
     \<and> kl_multi m m2 = Inr (sum_list kls)
     \<and> kl_multi m m = Inr 0"
proof -
  define pieces where "pieces = split_with_sizes logits sizes"
  define pieces2 where "pieces2 = split_with_sizes logits2 sizes"
  define m where "m = \<lparr>nvec = sizes, split_logits = pieces, categoricals = pieces\<rparr>"
  define m2 where "m2 = \<lparr>nvec = sizes, split_logits = pieces2, categoricals = pieces2\<rparr>"
  have len: "length pieces = length sizes" "length pieces2 = length sizes"
    by (simp_all add: pieces_def pieces2_def)
  have plen: "length (pieces ! i) = sizes ! i" "length (pieces2 ! i) = sizes ! i"
    if "i < length sizes" for i
    using that sum1 sum2 by (simp_all add: pieces_def pieces2_def length_nth_split_with_sizes)
  have pne: "pieces \<noteq> []" using ne len by auto
  have mk: "MultiCategorical logits sizes = Inr m" "MultiCategorical logits2 sizes = Inr m2"
    using sum1 sum2
    by (simp_all add: MultiCategorical_def torch_split_def ebind_def m_def m2_def pieces_def
        pieces2_def)
  have cats: "categoricals m = pieces" "split_logits m = pieces" "categoricals m2 = pieces2"
    by (simp_all add: m_def m2_def)
  have nth: "\<forall>i<length sizes.
           categoricals m ! i = take (sizes ! i) (drop (sum_list (take i sizes)) logits)"
    by (simp add: cats pieces_def nth_split_with_sizes)
  \<comment> \<open>log-probability\<close>
  define g where "g = (\<lambda>(i, d). cat_logits d ! nat \<lfloor>actions ! i\<rfloor>)"
  define log_probs where "log_probs = map g (enumerate 0 pieces)"
  have lp1: "(case x of (i, d) \<Rightarrow> ebind (getitem actions i) (cat_log_prob d)) = Inr (g x)"
    if "x \<in> set (enumerate 0 pieces)" for x
  proof -
    obtain i d where x: "x = (i, d)" by (cases x)
    from that x have i: "i < length sizes" and d: "d = pieces ! i"
      using len by (auto simp: in_set_enumerate_eq)
    from sup i obtain k where k: "k < sizes ! i" "actions ! i = real k" by blast
    have "getitem actions i = Inr (real k)" using i la k by (simp add: getitem_def)
    moreover have "cat_log_prob d (real k) = Inr (cat_logits d ! k)"
      using k plen[OF i] d by (simp add: cat_log_prob_index)
    ultimately show ?thesis using x k by (simp add: ebind_def g_def)
  qed
  have lp_len: "length log_probs = length sizes" by (simp add: log_probs_def len)
  have lp_ne: "log_probs \<noteq> []" using lp_len ne by auto
  have lp: "multi_log_prob m actions = Inr (sum_list log_probs)"
    using sequence_err_map_Inr[of "enumerate 0 pieces"
        "\<lambda>(i, d). ebind (getitem actions i) (cat_log_prob d)" g, OF lp1] lp_ne
    by (simp add: multi_log_prob_def cats ebind_def stack_def log_probs_def)
  have lp_nth: "\<forall>i<length sizes. cat_log_prob (categoricals m ! i) (actions ! i) = Inr (log_probs ! i)"
  proof (intro allI impI)
    fix i assume i: "i < length sizes"
    from sup i obtain k where k: "k < sizes ! i" "actions ! i = real k" by blast
    have "log_probs ! i = g (i, pieces ! i)"
      using i len by (simp add: log_probs_def nth_enumerate_eq)
    then show "cat_log_prob (categoricals m ! i) (actions ! i) = Inr (log_probs ! i)"
      using k plen[OF i] by (simp add: cats g_def cat_log_prob_index)
  qed
  \<comment> \<open>entropy\<close>
  have ent: "multi_entropy m = Inr (sum_list (map cat_entropy (categoricals m)))"
    using pne by (simp add: multi_entropy_def cats stack_def ebind_def)
  \<comment> \<open>mode\<close>
  define am where "am = (\<lambda>xs. projr (argmax xs))"
  define modes where "modes = map am pieces"
  have am1: "argmax xs = Inr (am xs)" if "xs \<in> set pieces" for xs
  proof -
    from that obtain i where "i < length sizes" "xs = pieces ! i"
      using len by (auto simp: in_set_conv_nth)
    then have "xs \<noteq> []" using plen(1)[of i] pos by auto
    from argmax_spec[OF this] show ?thesis by (auto simp: am_def)
  qed
  have md: "multi_mode m = Inr modes"
    using sequence_err_map_Inr[of pieces argmax am, OF am1] pne
    by (simp add: multi_mode_def cats ebind_def stack_def modes_def)
  have md_len: "length modes = length sizes" by (simp add: modes_def len)
  have md_nth: "\<forall>i<length sizes. argmax (split_logits m ! i) = Inr (modes ! i)
           \<and> modes ! i < sizes ! i
           \<and> (\<forall>j<sizes ! i. split_logits m ! i ! j \<le> split_logits m ! i ! (modes ! i))"
  proof (intro allI impI)
    fix i assume i: "i < length sizes"
    have ne_i: "pieces ! i \<noteq> []" using plen(1)[OF i] pos i by auto
    from argmax_spec[OF ne_i] obtain k where k: "argmax (pieces ! i) = Inr k"
      "k < length (pieces ! i)" "\<forall>j<length (pieces ! i). pieces ! i ! j \<le> pieces ! i ! k"
      by blast
    have "modes ! i = k" using i len k(1) by (simp add: modes_def am_def)
    then show "argmax (split_logits m ! i) = Inr (modes ! i) \<and> modes ! i < sizes ! i
           \<and> (\<forall>j<sizes ! i. split_logits m ! i ! j \<le> split_logits m ! i ! (modes ! i))"
      using k plen(1)[OF i] by (simp add: cats)
  qed
  \<comment> \<open>divergence\<close>
  define kf where "kf = (\<lambda>(p, q). sum_list (map2 (*) (cat_probs p) (map2 (-) (cat_logits p) (cat_logits q))))"
  define kls where "kls = map kf (zip pieces pieces2)"
  have kl1: "(case x of (d1, d2) \<Rightarrow> cat_kl d1 d2) = Inr (kf x)" if "x \<in> set (zip pieces pieces2)" for x
  proof -
    obtain p q where x: "x = (p, q)" by (cases x)
    from that x obtain i where "i < length sizes" "p = pieces ! i" "q = pieces2 ! i"
      using len by (auto simp: set_zip)
    then have "length p = length q" using plen by simp
    then show ?thesis using x by (simp add: cat_kl_same_length kf_def)
  qed
  have kl: "kl_multi m m2 = Inr (sum_list kls)"
    using sequence_err_map_Inr[of "zip pieces pieces2" "\<lambda>(d1, d2). cat_kl d1 d2" kf, OF kl1]
    by (simp add: kl_multi_def cats ebind_def kls_def)
  have kl_len: "length kls = length sizes" by (simp add: kls_def len)
  have kl_nth: "\<forall>i<length sizes. cat_kl (categoricals m ! i) (categoricals m2 ! i) = Inr (kls ! i)"
  proof (intro allI impI)
    fix i assume i: "i < length sizes"
    then have "(pieces ! i, pieces2 ! i) \<in> set (zip pieces pieces2)"
      using len by (auto simp: set_zip)
    from kl1[OF this] i len show "cat_kl (categoricals m ! i) (categoricals m2 ! i) = Inr (kls ! i)"
      by (simp add: cats kls_def)
  qed
  have kl0x: "(case x of (d1, d2) \<Rightarrow> cat_kl d1 d2) = Inr 0" if "x \<in> set (zip pieces pieces)" for x
    using that by (auto simp: set_zip cat_kl_self)
  have kl0: "kl_multi m m = Inr 0"
    using sequence_err_map_Inr[of "zip pieces pieces" "\<lambda>(d1, d2). cat_kl d1 d2" "\<lambda>x. 0", OF kl0x]
    by (simp add: kl_multi_def cats ebind_def)
  have c1: "length (categoricals m) = length sizes" by (simp add: cats len)
  have c2: "split_logits m = categoricals m" by (simp add: cats)
  show ?thesis
    apply (rule exI[of _ m], rule exI[of _ m2], rule exI[of _ log_probs], rule exI[of _ modes],
        rule exI[of _ kls])
    apply (intro conjI)
    by (fact mk c1 c2 nth lp_len lp_nth lp ent md_len md_nth md kl_len kl_nth kl kl0)+
qed

theorem multi_categorical_additive_witness:
  "(sum_list [1, 2::nat] = length [0, 1, 2::real])
   \<and> (sum_list [1, 2::nat] = length [3, 4, 5::real])
   \<and> ([1, 2::nat] \<noteq> [])
   \<and> (0 < [1, 2::nat] ! 0 \<and> 0 < [1, 2::nat] ! 1)
   \<and> (length [1, 2::nat] \<le> length [0, 1::real])
   \<and> ([0, 1::real] ! 0 = real 0 \<and> 0 < [1, 2::nat] ! 0 \<and> [0, 1::real] ! 1 = real 1 \<and> 1 < [1, 2::nat] ! 1)
   \<and> (\<exists>m m2 log_probs modes kls.
     MultiCategorical [0, 1, 2::real] [1, 2::nat] = Inr m \<and> MultiCategorical [3, 4, 5::real] [1, 2::nat] = Inr m2
     \<and> length (categoricals m) = length [1, 2::nat] \<and> split_logits m = categoricals m
     \<and> (\<forall>i<length [1, 2::nat].
           categoricals m ! i = take ([1, 2::nat] ! i) (drop (sum_list (take i [1, 2::nat])) [0, 1, 2::real]))
     \<and> length log_probs = length [1, 2::nat]
     \<and> (\<forall>i<length [1, 2::nat]. cat_log_prob (categoricals m ! i) ([0, 1::real] ! i) = Inr (log_probs ! i))
     \<and> multi_log_prob m [0, 1::real] = Inr (sum_list log_probs)
     \<and> multi_entropy m = Inr (sum_list (map cat_entropy (categoricals m)))
     \<and> length modes = length [1, 2::nat]
     \<and> (\<forall>i<length [1, 2::nat]. argmax (split_logits m ! i) = Inr (modes ! i) \<and> modes ! i < [1, 2::nat] ! i
           \<and> (\<forall>j<[1, 2::nat] ! i. split_logits m ! i ! j \<le> split_logits m ! i ! (modes ! i)))
     \<and> multi_mode m = Inr modes
     \<and> length kls = length [1, 2::nat]
     \<and> (\<forall>i<length [1, 2::nat]. cat_kl (categoricals m ! i) (categoricals m2 ! i) = Inr (kls ! i))
     \<and> kl_multi m m2 = Inr (sum_list kls)
     \<and> kl_multi m m = Inr 0)"
proof -
  have h1: "sum_list [1, 2::nat] = length [0, 1, 2::real]" by simp
  have h2: "sum_list [1, 2::nat] = length [3, 4, 5::real]" by simp
  have h3: "[1, 2::nat] \<noteq> []" by simp
  have h4: "\<forall>i<length [1, 2::nat]. 0 < [1, 2::nat] ! i" by (simp add: nth_Cons' less_Suc_eq)
  have h5: "length [1, 2::nat] \<le> length [0, 1::real]" by simp
  have h6: "\<forall>i<length [1, 2::nat]. \<exists>k<[1, 2::nat] ! i. [0, 1::real] ! i = real k"
  proof (intro allI impI)
    fix i assume "i < length [1, 2::nat]"
    then consider "i = 0" | "i = 1" by fastforce
    then show "\<exists>k<[1, 2::nat] ! i. [0, 1::real] ! i = real k"
    proof cases
      case 1
      then show ?thesis by (intro exI[of _ 0]) simp
    next
      case 2
      then show ?thesis by (intro exI[of _ 1]) simp
    qed
  qed
  show ?thesis
    using h1 h2 h3 h5 multi_categorical_additive [OF h1 h2 h3 h4 h5 h6]
    by (intro conjI; (assumption | simp))
qed

section \<open>Properties of checkpoint loading\<close>

text \<open>
  Claim C8 says that when the file exists, loading reads all four named fields. Take a
  file that exists and holds a dictionary with the four fields, where the second tensor of
  the stored actor state has another size than the network's, and a \<open>module_load\<close> that
  copies the tensors that fit and then raises. The call ends in that RuntimeError with
  the actor overwritten in part; the critic and the two optimizers, although stored in the
  file, are not loaded.
\<close>

theorem load_model_size_mismatch_stops_after_actor:
  "load_model (\<lambda>a b. a @ ''/'' @ b) ''/w'' [''/w/checkpoints/m.pt'' \<mapsto> ()]
     (\<lambda>f. Inr (dict_getitem
        [''actor_state_dict'' \<mapsto> [[7], [7, 7, 7]], ''critic_state_dict'' \<mapsto> [[9::nat]],
         ''actor_optimizer_state_dict'' \<mapsto> [[9]], ''critic_optimizer_state_dict'' \<mapsto> [[9]]]))
     (\<lambda>cur d. if map length d = map length cur then (None, d)
               else (Some RuntimeError, map2 (\<lambda>c x. if length x = length c then x else c) cur d))
     (\<lambda>cur d. (None, d))
     ''m.pt''
     \<lparr>actor_state = [[0], [0, 0]], critic_state = [[0]], actor_optimizer_state = [[0]],
       critic_optimizer_state = [[0]]\<rparr>
   = (Some RuntimeError,
      \<lparr>actor_state = [[7], [0, 0]], critic_state = [[0]], actor_optimizer_state = [[0]],
        critic_optimizer_state = [[0]]\<rparr>)"
  by (simp add: load_model_def dict_getitem_def Let_def)

text \<open>
  Claim C8, amended. If no file exists at the checkpoint path, \<open>load_model\<close> raises a
  ValueError whose message contains that path and leaves all four fields of the trainer
  as they were. If the file exists: an exception of \<open>torch_load\<close> is raised with the
  trainer unchanged; the call completes without an exception exactly when \<open>torch_load\<close>,
  the four lookups of the named fields and the four \<open>load_state_dict\<close> calls all succeed,
  and then all four fields are loaded; and an exception of the first \<open>load_state_dict\<close>
  is raised with the actor as that call left it and the other three fields unchanged.
\<close>

theorem load_model_missing_or_in_order:
  "(fs (joinpath (joinpath cwd ''checkpoints'') filename) = None \<longrightarrow>
      load_model joinpath cwd fs torch_load module_load optimizer_load filename tr =
        (Some (ValueError (''Checkpoint '' @ joinpath (joinpath cwd ''checkpoints'') filename
                             @ '' doesn't exist!'')), tr))
   \<and> (fs (joinpath (joinpath cwd ''checkpoints'') filename) = Some stored \<longrightarrow>
        (\<forall>e. torch_load stored = Inl e \<longrightarrow>
           load_model joinpath cwd fs torch_load module_load optimizer_load filename tr
             = (Some e, tr))
        \<and> (fst (load_model joinpath cwd fs torch_load module_load optimizer_load filename tr)
              = None \<longleftrightarrow>
            (\<exists>checkpoint a c ao co.
               torch_load stored = Inr checkpoint
               \<and> checkpoint ''actor_state_dict'' = Inr a
               \<and> checkpoint ''critic_state_dict'' = Inr c
               \<and> checkpoint ''actor_optimizer_state_dict'' = Inr ao
               \<and> checkpoint ''critic_optimizer_state_dict'' = Inr co
               \<and> fst (module_load (actor_state tr) a) = None
               \<and> fst (module_load (critic_state tr) c) = None
               \<and> fst (optimizer_load (actor_optimizer_state tr) ao) = None
               \<and> fst (optimizer_load (critic_optimizer_state tr) co) = None))
        \<and> (\<forall>checkpoint a c ao co.
              torch_load stored = Inr checkpoint
              \<and> checkpoint ''actor_state_dict'' = Inr a
              \<and> checkpoint ''critic_state_dict'' = Inr c
              \<and> checkpoint ''actor_optimizer_state_dict'' = Inr ao
              \<and> checkpoint ''critic_optimizer_state_dict'' = Inr co
              \<and> fst (module_load (actor_state tr) a) = None
              \<and> fst (module_load (critic_state tr) c) = None
              \<and> fst (optimizer_load (actor_optimizer_state tr) ao) = None
              \<and> fst (optimizer_load (critic_optimizer_state tr) co) = None \<longrightarrow>
              load_model joinpath cwd fs torch_load module_load optimizer_load filename tr =
                (None, \<lparr>actor_state = snd (module_load (actor_state tr) a),
                         critic_state = snd (module_load (critic_state tr) c),
                         actor_optimizer_state = snd (optimizer_load (actor_optimizer_state tr) ao),
                         critic_optimizer_state =
                           snd (optimizer_load (critic_optimizer_state tr) co)\<rparr>))
        \<and> (\<forall>checkpoint a e.
              torch_load stored = Inr checkpoint
              \<and> checkpoint ''actor_state_dict'' = Inr a
              \<and> fst (module_load (actor_state tr) a) = Some e \<longrightarrow>
              load_model joinpath cwd fs torch_load module_load optimizer_load filename tr =
                (Some e, tr\<lparr>actor_state := snd (module_load (actor_state tr) a)\<rparr>)))"
  by (auto simp: load_model_def Let_def split: option.splits sum.splits)


theorem load_model_missing_or_in_order_witness:
  "load_model (\<lambda>a b. a @ ''/'' @ b) ''/w'' (Map.empty :: string \<rightharpoonup> unit)
       (\<lambda>f. Inr (dict_getitem
          [''actor_state_dict'' \<mapsto> 1::nat, ''critic_state_dict'' \<mapsto> 2,
           ''actor_optimizer_state_dict'' \<mapsto> 3, ''critic_optimizer_state_dict'' \<mapsto> 4]))
       (\<lambda>cur d. (None, d)) (\<lambda>cur d. (None, d)) ''m.pt''
       \<lparr>actor_state = 0::nat, critic_state = 0, actor_optimizer_state = 0::nat,
         critic_optimizer_state = 0\<rparr>
     = (Some (ValueError ''Checkpoint /w/checkpoints/m.pt doesn't exist!''),
        \<lparr>actor_state = 0, critic_state = 0, actor_optimizer_state = 0,
          critic_optimizer_state = 0\<rparr>)
   \<and> load_model (\<lambda>a b. a @ ''/'' @ b) ''/w'' [''/w/checkpoints/m.pt'' \<mapsto> ()]
       (\<lambda>f. Inr (dict_getitem
          [''actor_state_dict'' \<mapsto> 1::nat, ''critic_state_dict'' \<mapsto> 2,
           ''actor_optimizer_state_dict'' \<mapsto> 3, ''critic_optimizer_state_dict'' \<mapsto> 4]))
       (\<lambda>cur d. (None, d)) (\<lambda>cur d. (None, d)) ''m.pt''
       \<lparr>actor_state = 0::nat, critic_state = 0, actor_optimizer_state = 0::nat,
         critic_optimizer_state = 0\<rparr>
     = (None,
        \<lparr>actor_state = 1, critic_state = 2, actor_optimizer_state = 3,
          critic_optimizer_state = 4\<rparr>)"
  using load_model_missing_or_in_order [where fs = "Map.empty :: string \<rightharpoonup> unit"
        and joinpath = "\<lambda>a b. a @ ''/'' @ b" and cwd = "''/w''" and filename = "''m.pt''"
        and torch_load = "\<lambda>f. Inr (dict_getitem
          [''actor_state_dict'' \<mapsto> 1::nat, ''critic_state_dict'' \<mapsto> 2,
           ''actor_optimizer_state_dict'' \<mapsto> 3, ''critic_optimizer_state_dict'' \<mapsto> 4])"
        and module_load = "\<lambda>(cur::nat) d. (None, d)" and optimizer_load = "\<lambda>(cur::nat) d. (None, d)"
        and tr = "\<lparr>actor_state = 0, critic_state = 0, actor_optimizer_state = 0,
                   critic_optimizer_state = 0\<rparr>"]
    load_model_missing_or_in_order [where fs = "[''/w/checkpoints/m.pt'' \<mapsto> ()]"
        and joinpath = "\<lambda>a b. a @ ''/'' @ b" and cwd = "''/w''" and filename = "''m.pt''"
        and stored = "()"
        and torch_load = "\<lambda>f. Inr (dict_getitem
          [''actor_state_dict'' \<mapsto> 1::nat, ''critic_state_dict'' \<mapsto> 2,
           ''actor_optimizer_state_dict'' \<mapsto> 3, ''critic_optimizer_state_dict'' \<mapsto> 4])"
        and module_load = "\<lambda>(cur::nat) d. (None, d)" and optimizer_load = "\<lambda>(cur::nat) d. (None, d)"
        and tr = "\<lparr>actor_state = 0, critic_state = 0, actor_optimizer_state = 0,
                   critic_optimizer_state = 0\<rparr>"]
  by (simp add: dict_getitem_def)

section \<open>Properties of the constructor\<close>

text \<open>
  Claim C9 says that only spaces other than MultiDiscrete, Discrete and Box are fatal at
  construction. A Box without an axis is fatal as well: reading \<open>shape[0]\<close> raises an
  IndexError.
\<close>

theorem init_action_space_box_without_axes: "init_action_space (Box []) = Inl IndexError"
  by (simp add: init_action_space_def getitem_def ebind_def)

text \<open>
  Claim C9, amended. A plain \<open>Discrete n\<close> space is accepted and laid out as a
  MultiDiscrete space of the single cardinality \<open>n\<close>: one action dimension and \<open>n\<close>
  logits. Every MultiDiscrete space and every Box with at least one axis is accepted, and
  the error for an unsupported action space is raised exactly for the other kinds of
  space.
\<close>

theorem init_action_space_discrete:
  "init_action_space (Discrete n) = Inr (Some [n], 1, True)
   \<and> init_action_space (Discrete n) = init_action_space (MultiDiscrete [n])
   \<and> actor_output_width (Some [n]) 1 True = n
   \<and> init_action_space (MultiDiscrete sizes) = Inr (Some sizes, length sizes, True)
   \<and> init_action_space (Box (d # shape)) = Inr (None, d, False)
   \<and> (init_action_space space = Inl NotImplementedError \<longleftrightarrow> (\<exists>s. space = OtherSpace s))"
  by (cases space) (auto simp: init_action_space_def getitem_def ebind_def actor_output_width_def)


section \<open>Properties of the loss\<close>

text \<open>
  The continuous branch on a batch of \<open>B\<close> rows of \<open>D\<close> dimensions each: the new
  log-probability of a row is the sum over the dimensions of the Normal log-probabilities
  of the components of its action, and the entropy term is the sum of all the
  per-dimension entropies divided by \<open>B * D\<close>.
\<close>

lemma continuous_log_probs_entropy_rows:
  fixes actor_net :: "'s \<Rightarrow> real list"
  assumes D: "0 < D" and width: "\<forall>s\<in>set states. length (actor_net s) = 2 * D"
    and batch: "length actions = length states" and dims: "\<forall>a\<in>set actions. length a = D"
  defines "params \<equiv> \<lambda>s. zip (take D (actor_net s))
                             (map exp (map (clamp (-20) 2) (drop D (actor_net s))))"
  shows "continuous_log_probs_entropy actor_net states actions =
           Inr (map2 (\<lambda>s a. sum_list (map2 normal_log_prob1 (params s) a)) states actions,
                sum_list (map (\<lambda>s. sum_list (map normal_entropy1 (params s))) states)
                  / real (length states * D))"
proof -
  have fwd: "ebind (actor_forward False actor_net s) (\<lambda>out.
                case out of MeanLogStd mean log_std \<Rightarrow> Normal mean (map exp log_std)
                | Logits logits \<Rightarrow> Inl RuntimeError) = Inr (params s)"
    if "s \<in> set states" for s
  proof -
    have l: "length (actor_net s) = 2 * D" using width that by blast
    then have "(length (actor_net s) + 1) div 2 = D" by simp
    then show ?thesis using l D
      by (simp add: actor_forward_def chunk2_def ebind_def Normal_def broadcast2_def params_def Let_def)
  qed
  have plen: "length (params s) = D" if "s \<in> set states" for s
    using width that by (simp add: params_def)
  have dists: "sequence_err (map (\<lambda>s. ebind (actor_forward False actor_net s) (\<lambda>out.
                case out of MeanLogStd mean log_std \<Rightarrow> Normal mean (map exp log_std)
                | Logits logits \<Rightarrow> Inl RuntimeError)) states) = Inr (map params states)"
    by (rule sequence_err_map_Inr) (rule fwd)
  have b2: "broadcast2 normal_log_prob (map params states) actions
      = Inr (map (\<lambda>p. normal_log_prob (params (fst p)) (snd p)) (zip states actions))"
    using batch by (simp add: broadcast2_def zip_map1 case_prod_unfold)
  have row: "normal_log_prob (params (fst x)) (snd x)
      = Inr (map2 normal_log_prob1 (params (fst x)) (snd x))"
    if "x \<in> set (zip states actions)" for x
  proof -
    obtain s a where x: "x = (s, a)" by (cases x)
    with that have "s \<in> set states" "a \<in> set actions" by (auto dest: set_zip_leftD set_zip_rightD)
    then have "length (params s) = length a" using plen dims by simp
    then show ?thesis using x by (simp add: normal_log_prob_def broadcast2_def)
  qed
  have lps: "sequence_err (map (\<lambda>p. normal_log_prob (params (fst p)) (snd p)) (zip states actions))
      = Inr (map (\<lambda>p. map2 normal_log_prob1 (params (fst p)) (snd p)) (zip states actions))"
    by (rule sequence_err_map_Inr) (rule row)
  have len_concat: "length (concat (map (\<lambda>x. normal_entropy (params x)) states)) = length states * D"
    using plen by (induction states) (simp_all add: normal_entropy_def)
  have sum_concat: "sum_list (concat (map (\<lambda>x. normal_entropy (params x)) states))
      = sum_list (map (\<lambda>s. sum_list (map normal_entropy1 (params s))) states)"
    by (induction states) (simp_all add: normal_entropy_def)
  show ?thesis
    unfolding continuous_log_probs_entropy_def dists
    by (simp add: ebind_def b2 lps tensor_mean_def len_concat sum_concat o_def case_prod_unfold)
qed

lemma normal_entropy1_pos: "0 < normal_entropy1 (0, 1)"
proof -
  have "1 < 2 * pi" using pi_ge_two by simp
  then have pos: "0 < ln (2 * pi)" by simp
  have "normal_entropy1 (0, 1) = 1 / 2 + ln (2 * pi) / 2"
    by (simp add: normal_entropy1_def)
  with pos show ?thesis by linarith
qed

lemma continuous_two_dimensions_eval:
  "continuous_log_probs_entropy (\<lambda>s::unit. [0, 0, 0, 0]) [()] [[0, 0]]
     = Inr ([normal_log_prob1 (0, 1) 0 + normal_log_prob1 (0, 1) 0], normal_entropy1 (0, 1))"
  by (simp add: continuous_log_probs_entropy_def actor_forward_def chunk2_def ebind_def
      Normal_def broadcast2_def clamp_def normal_log_prob_def normal_entropy_def tensor_mean_def)

text \<open>
  Claim C3 says that the entropy term of the continuous variant is the per-state sum of
  the per-dimension Normal entropies, averaged over the batch. The code at a batch of one
  state with two action dimensions (mean \<open>[0, 0]\<close>, standard deviation \<open>[1, 1]\<close>, old
  log-probability equal to the new one, advantage and return \<open>0\<close>): the total loss is
  \<open>- 0.01\<close> times the entropy of one dimension, which is not the sum over the two
  dimensions.
\<close>

theorem continuous_entropy_is_mean_over_dimensions:
  "compute_ppo_loss False [] (2/10) (\<lambda>s::unit. [0, 0, 0, 0]) (\<lambda>s. 0) [()] [[0, 0]]
      [normal_log_prob1 (0, 1) 0 + normal_log_prob1 (0, 1) 0] [0] [0]
     = Inr (- (1/100) * normal_entropy1 (0, 1), 0, 0)
   \<and> sum_list (normal_entropy [(0, 1), (0, 1)]) = 2 * normal_entropy1 (0, 1)
   \<and> normal_entropy1 (0, 1) \<noteq> 2 * normal_entropy1 (0, 1)"
  using normal_entropy1_pos
  by (simp add: compute_ppo_loss_def continuous_two_dimensions_eval ebind_def broadcast2_def tensor_mean_def
      normal_entropy_def)


section \<open>Properties of the update\<close>

text \<open>
  The epoch loop when the epoch of index \<open>k\<close> is the first whose divergence exceeds the
  threshold: the parameters have taken \<open>k\<close> optimizer steps and the metrics of the epochs
  \<open>0, \<dots>, k\<close> have been appended.
\<close>

lemma epoch_loop_early_stop:
  assumes "k < n"
    and "\<forall>j\<le>k. loss ((optimizer_step ^^ j) p) = Inr (total_loss j, value_loss j, kl_div j)"
    and "\<forall>j<k. \<not> kl_div j > 1.5 * target_kl"
    and "kl_div k > 1.5 * target_kl"
  shows "epoch_loop loss optimizer_step target_kl n p tls vls kls =
           Inr ((optimizer_step ^^ k) p, tls @ map total_loss [0..<Suc k],
                vls @ map value_loss [0..<Suc k], kls @ map kl_div [0..<Suc k])"
  using assms
proof (induction k arbitrary: n p tls vls kls total_loss value_loss kl_div)
  case 0
  then obtain n' where n: "n = Suc n'" by (cases n) auto
  from 0 have "loss p = Inr (total_loss 0, value_loss 0, kl_div 0)" by simp
  then show ?case using 0 n by simp
next
  case (Suc k)
  then obtain n' where n: "n = Suc n'" by (cases n) auto
  from Suc.prems(2) have l0: "loss p = Inr (total_loss 0, value_loss 0, kl_div 0)" by force
  from Suc.prems(3) have k0: "\<not> kl_div 0 > 1.5 * target_kl" by simp
  have a: "k < n'" using Suc.prems(1) n by simp
  have b: "\<forall>j\<le>k. loss ((optimizer_step ^^ j) (optimizer_step p))
      = Inr ((total_loss \<circ> Suc) j, (value_loss \<circ> Suc) j, (kl_div \<circ> Suc) j)"
  proof (intro allI impI)
    fix j assume "j \<le> k"
    then have "Suc j \<le> Suc k" by simp
    with Suc.prems(2) have "loss ((optimizer_step ^^ Suc j) p)
        = Inr (total_loss (Suc j), value_loss (Suc j), kl_div (Suc j))" by blast
    then show "loss ((optimizer_step ^^ j) (optimizer_step p))
        = Inr ((total_loss \<circ> Suc) j, (value_loss \<circ> Suc) j, (kl_div \<circ> Suc) j)"
      by (simp add: funpow_swap1)
  qed
  have c: "\<forall>j<k. \<not> (kl_div \<circ> Suc) j > 1.5 * target_kl" using Suc.prems(3) by simp
  have d: "(kl_div \<circ> Suc) k > 1.5 * target_kl" using Suc.prems(4) by simp
  have shift: "f 0 # map (f \<circ> Suc) [0..<Suc k] = map f [0..<Suc (Suc k)]" for f :: "nat \<Rightarrow> real"
  proof -
    have "[0..<Suc (Suc k)] = 0 # map Suc [0..<Suc k]"
      by (simp only: map_Suc_upt upt_conv_Cons[of 0 "Suc (Suc k)"] zero_less_Suc if_True)
    then show ?thesis by (simp only: list.map map_map)
  qed
  have "epoch_loop loss optimizer_step target_kl n p tls vls kls
      = epoch_loop loss optimizer_step target_kl n' (optimizer_step p)
          (tls @ [total_loss 0]) (vls @ [value_loss 0]) (kls @ [kl_div 0])"
    using n l0 k0 by simp
  also have "\<dots> = Inr ((optimizer_step ^^ k) (optimizer_step p),
       (tls @ [total_loss 0]) @ map (total_loss \<circ> Suc) [0..<Suc k],
       (vls @ [value_loss 0]) @ map (value_loss \<circ> Suc) [0..<Suc k],
       (kls @ [kl_div 0]) @ map (kl_div \<circ> Suc) [0..<Suc k])"
    by (rule Suc.IH[OF a b c d])
  also have "\<dots> = Inr ((optimizer_step ^^ Suc k) p, tls @ map total_loss [0..<Suc (Suc k)],
                vls @ map value_loss [0..<Suc (Suc k)], kls @ map kl_div [0..<Suc (Suc k)])"
    using shift[of total_loss] shift[of value_loss] shift[of kl_div]
    by (simp only: append_assoc append_Cons append_Nil funpow_swap1 funpow.simps o_apply)
  finally show ?case .
qed

text \<open>
  Claim C2. In one call of \<open>train_step\<close>, let the epoch of index \<open>k < 10\<close> be the first
  whose approximate divergence exceeds \<open>1.5 * target_kl\<close>, the losses raising nothing. Then
  the returned parameters are the initial ones after exactly \<open>k\<close> optimizer steps (the
  step of epoch \<open>k\<close> is not applied and no later epoch runs), and the diagnostics are the
  averages of the metrics of the epochs \<open>0, \<dots>, k\<close>, the ones that ran. For \<open>k = 1\<close>, the
  second epoch, exactly one step is applied.
\<close>

theorem train_step_early_stop:
  assumes "k < 10"
    and "normalized =
           map (\<lambda>a. (a - tensor_mean advantages) / (tensor_std advantages + 1 / 10 ^ 8)) advantages"
    and "\<forall>j\<le>k. compute_ppo_loss discrete n_logits clip_ratio
                  (actor_net ((optimizer_step ^^ j) p)) (critic_net ((optimizer_step ^^ j) p))
                  states actions old_log_probs normalized returns
               = Inr (total_loss j, value_loss j, kl_div j)"
    and "\<forall>j<k. \<not> kl_div j > 1.5 * target_kl"
    and "kl_div k > 1.5 * target_kl"
  shows "train_step discrete n_logits clip_ratio target_kl actor_net critic_net optimizer_step p
           states actions old_log_probs advantages returns
         = Inr ((optimizer_step ^^ k) p,
                tensor_mean (map total_loss [0..<Suc k]),
                tensor_mean (map value_loss [0..<Suc k]),
                tensor_mean (map kl_div [0..<Suc k]))"
proof -
  let ?loss = "\<lambda>q. compute_ppo_loss discrete n_logits clip_ratio (actor_net q) (critic_net q)
                  states actions old_log_probs normalized returns"
  have "epoch_loop ?loss optimizer_step target_kl 10 p [] [] [] =
           Inr ((optimizer_step ^^ k) p, [] @ map total_loss [0..<Suc k],
                [] @ map value_loss [0..<Suc k], [] @ map kl_div [0..<Suc k])"
    by (rule epoch_loop_early_stop[where loss = ?loss, OF assms(1) assms(3) assms(4) assms(5)])
  then show ?thesis
    unfolding train_step_def Let_def assms(2)[symmetric] by (simp add: ebind_def)
qed


text \<open>
  A batch on which the second epoch stops the loop: a Gaussian policy of one dimension
  whose mean is the parameter, moved by \<open>1\<close> in every optimizer step.
\<close>

lemma gaussian_row_eval:
  "continuous_log_probs_entropy (\<lambda>s::unit. [q, 0]) [(), ()] [[0], [0]]
     = Inr ([normal_log_prob1 (q, 1) 0, normal_log_prob1 (q, 1) 0], normal_entropy1 (q, 1))"
  by (simp add: continuous_log_probs_entropy_def actor_forward_def chunk2_def ebind_def
      Normal_def broadcast2_def clamp_def normal_log_prob_def normal_entropy_def tensor_mean_def)

lemma gaussian_loss_eval:
  "\<exists>t v. compute_ppo_loss False [] (2/10) (\<lambda>s::unit. [q, 0]) (\<lambda>s. 0) [(), ()] [[0], [0]]
      [normal_log_prob1 (0, 1) 0, normal_log_prob1 (0, 1) 0] [a, b] [0, 0]
     = Inr (t, v, q\<^sup>2 / 2)"
  by (simp add: compute_ppo_loss_def gaussian_row_eval ebind_def broadcast2_def tensor_mean_def
      normal_log_prob1_def Let_def)

theorem train_step_early_stop_witness:
  "\<exists>avg_total_loss avg_value_loss.
     train_step False [] (2/10) (1/100) (\<lambda>q (s::unit). [q, 0]) (\<lambda>q s. 0) (\<lambda>q. q + 1) 0
       [(), ()] [[0], [0]] [normal_log_prob1 (0, 1) 0, normal_log_prob1 (0, 1) 0] [1, -1] [0, 0]
     = Inr ((\<lambda>q. q + 1) 0, avg_total_loss, avg_value_loss, (0 + 1/2) / 2)"
proof -
  let ?adv = "[1, -1] :: real list"
  let ?a = "(1 - tensor_mean ?adv) / (tensor_std ?adv + 1 / 10 ^ 8)"
  let ?b = "(-1 - tensor_mean ?adv) / (tensor_std ?adv + 1 / 10 ^ 8)"
  let ?loss = "\<lambda>q::real. compute_ppo_loss False [] (2/10) (\<lambda>s::unit. [q, 0]) (\<lambda>s. 0) [(), ()]
      [[0], [0]] [normal_log_prob1 (0, 1) 0, normal_log_prob1 (0, 1) 0] [?a, ?b] [0, 0]"
  obtain t0 v0 where e0: "?loss 0 = Inr (t0, v0, 0\<^sup>2 / 2)"
    using gaussian_loss_eval[of 0 ?a ?b] by blast
  obtain t1 v1 where e1: "?loss 1 = Inr (t1, v1, 1\<^sup>2 / 2)"
    using gaussian_loss_eval[of 1 ?a ?b] by blast
  define tl where "tl = (\<lambda>j::nat. if j = 0 then t0 else t1)"
  define vl where "vl = (\<lambda>j::nat. if j = 0 then v0 else v1)"
  define kl where "kl = (\<lambda>j::nat. if j = 0 then 0 else (1/2::real))"
  have h1: "(1::nat) < 10" by simp
  have h2: "[?a, ?b] = map (\<lambda>a. (a - tensor_mean ?adv) / (tensor_std ?adv + 1 / 10 ^ 8)) ?adv"
    by simp
  have h3: "\<forall>j\<le>1. compute_ppo_loss False [] (2/10) ((\<lambda>q (s::unit). [q, 0]) (((\<lambda>q. q + 1) ^^ j) 0))
        ((\<lambda>q s. 0) (((\<lambda>q. q + 1) ^^ j) 0)) [(), ()] [[0], [0]]
        [normal_log_prob1 (0, 1) 0, normal_log_prob1 (0, 1) 0] [?a, ?b] [0, 0]
      = Inr (tl j, vl j, kl j)"
  proof (intro allI impI)
    fix j :: nat assume "j \<le> 1"
    then consider "j = 0" | "j = 1" by linarith
    then show "compute_ppo_loss False [] (2/10) ((\<lambda>q (s::unit). [q, 0]) (((\<lambda>q. q + 1) ^^ j) 0))
        ((\<lambda>q s. 0) (((\<lambda>q. q + 1) ^^ j) 0)) [(), ()] [[0], [0]]
        [normal_log_prob1 (0, 1) 0, normal_log_prob1 (0, 1) 0] [?a, ?b] [0, 0]
      = Inr (tl j, vl j, kl j)"
    proof cases
      case 1
      then show ?thesis using e0 by (simp add: tl_def vl_def kl_def)
    next
      case 2
      then show ?thesis using e1 by (simp add: tl_def vl_def kl_def)
    qed
  qed
  have h4: "\<forall>j<1. \<not> kl j > 1.5 * (1/100)" by (simp add: kl_def)
  have h5: "kl 1 > 1.5 * (1/100)" by (simp add: kl_def)
  have "train_step False [] (2/10) (1/100) (\<lambda>q (s::unit). [q, 0]) (\<lambda>q s. 0) (\<lambda>q. q + 1) 0
       [(), ()] [[0], [0]] [normal_log_prob1 (0, 1) 0, normal_log_prob1 (0, 1) 0] [1, -1] [0, 0]
     = Inr (((\<lambda>q. q + 1) ^^ 1) 0, tensor_mean (map tl [0..<Suc 1]),
            tensor_mean (map vl [0..<Suc 1]), tensor_mean (map kl [0..<Suc 1]))"
    by (rule train_step_early_stop[OF h1 h2 h3 h4 h5])
  moreover have "tensor_mean (map kl [0..<Suc 1]) = (0 + 1/2) / 2"
    by (simp add: tensor_mean_def kl_def)
  ultimately show ?thesis by simp
qed


section \<open>Properties of the rollout\<close>

text \<open>
  One iteration of the loop body, given what the policy and the environment return: one
  entry is appended to each buffer, the done flag being the terminated signal, and the
  next state is the reset observation when the step terminated or was truncated.
\<close>

lemma rollout_body_step:
  assumes "policy (ro_state r) (ro_world r) = Inr (action, log_prob, val, w1)"
    and "env_step action w1 = ((next_state, reward, terminated, truncated), w2)"
  shows "\<exists>r1. rollout_body policy env_step env_reset r = Inr r1
      \<and> ro_states r1 = ro_states r @ [ro_state r]
      \<and> ro_actions r1 = ro_actions r @ [action]
      \<and> ro_rewards r1 = ro_rewards r @ [reward]
      \<and> ro_values r1 = ro_values r @ [val]
      \<and> ro_log_probs r1 = ro_log_probs r @ [log_prob]
      \<and> ro_dones r1 = ro_dones r @ [terminated]
      \<and> ro_state r1 = (if terminated \<or> truncated then fst (env_reset w2) else next_state)
      \<and> ro_world r1 = (if terminated \<or> truncated then snd (env_reset w2) else w2)"
  using assms by (simp add: rollout_body_def ebind_def Let_def case_prod_unfold)

lemma rollout_body_Inr_cases:
  assumes "rollout_body policy env_step env_reset r = Inr r1"
  obtains action log_prob val w1 next_state reward terminated truncated w2
  where "policy (ro_state r) (ro_world r) = Inr (action, log_prob, val, w1)"
    and "env_step action w1 = ((next_state, reward, terminated, truncated), w2)"
proof -
  from assms obtain res where res: "policy (ro_state r) (ro_world r) = Inr res"
    by (cases "policy (ro_state r) (ro_world r)") (auto simp: rollout_body_def ebind_def)
  obtain action log_prob val w1 where r4: "res = (action, log_prob, val, w1)"
    by (cases res) auto
  obtain next_state reward terminated truncated w2
    where "env_step action w1 = ((next_state, reward, terminated, truncated), w2)"
    by (metis prod.exhaust)
  with res r4 that show ?thesis by blast
qed

lemma rollout_loop_add:
  "rollout_loop body (i + j) r =
     (case rollout_loop body i r of Inl e \<Rightarrow> Inl e | Inr ri \<Rightarrow> rollout_loop body j ri)"
  by (induction i arbitrary: r) (simp_all split: sum.splits)

lemma rollout_loop_total:
  assumes "\<forall>r. \<exists>r1. body r = Inr r1"
  shows "\<exists>r1. rollout_loop body n r = Inr r1"
proof (induction n arbitrary: r)
  case 0
  then show ?case by simp
next
  case (Suc n)
  from assms obtain r1 where "body r = Inr r1" by blast
  with Suc[of r1] show ?case by simp
qed

lemma rollout_loop_grows:
  assumes "\<forall>r r1. body r = Inr r1 \<longrightarrow> (\<exists>x. buf r1 = buf r @ [x])"
    and "rollout_loop body n r = Inr r1"
  shows "\<exists>xs. length xs = n \<and> buf r1 = buf r @ xs"
  using assms(2)
proof (induction n arbitrary: r)
  case 0
  then show ?case by simp
next
  case (Suc n)
  from Suc.prems obtain r2 where b: "body r = Inr r2" and l: "rollout_loop body n r2 = Inr r1"
    by (cases "body r") auto
  from assms(1) b obtain x where x: "buf r2 = buf r @ [x]" by blast
  from Suc.IH[OF l] obtain xs where "length xs = n" "buf r1 = buf r2 @ xs" by blast
  with x have "length (x # xs) = Suc n \<and> buf r1 = buf r @ (x # xs)" by simp
  then show ?case by blast
qed

lemma rollout_body_grows:
  assumes "rollout_body policy env_step env_reset r = Inr r1"
  shows "(\<exists>x. ro_states r1 = ro_states r @ [x]) \<and> (\<exists>x. ro_actions r1 = ro_actions r @ [x])
    \<and> (\<exists>x. ro_rewards r1 = ro_rewards r @ [x]) \<and> (\<exists>x. ro_values r1 = ro_values r @ [x])
    \<and> (\<exists>x. ro_log_probs r1 = ro_log_probs r @ [x]) \<and> (\<exists>x. ro_dones r1 = ro_dones r @ [x])"
proof -
  from assms obtain action log_prob val w1 next_state reward terminated truncated w2
    where p: "policy (ro_state r) (ro_world r) = Inr (action, log_prob, val, w1)"
      and e: "env_step action w1 = ((next_state, reward, terminated, truncated), w2)"
    by (rule rollout_body_Inr_cases)
  from rollout_body_step[where policy = policy and r = r and env_step = env_step
      and env_reset = env_reset, OF p e] assms
  show ?thesis by auto
qed


lemma rollout_loop_nth:
  assumes grow: "\<forall>r r1. body r = Inr r1 \<longrightarrow> (\<exists>x. buf r1 = buf r @ [x])"
    and "buf r0 = []" and "rollout_loop body i r0 = Inr ri"
    and "buf rj = buf ri @ [x]" and "rollout_loop body m rj = Inr r"
  shows "buf r ! i = x \<and> length (buf r) = Suc i + m"
proof -
  from rollout_loop_grows[OF grow assms(3)] assms(2)
  obtain xs where xs: "length xs = i" "buf ri = xs" by auto
  from rollout_loop_grows[OF grow assms(5)]
  obtain ys where ys: "length ys = m" "buf r = buf rj @ ys" by auto
  from xs ys assms(4) show ?thesis by (simp add: nth_append)
qed

lemma rollout_loop_split:
  assumes "rollout_loop body n r0 = Inr r" and "i < n"
  shows "\<exists>ri rj. rollout_loop body i r0 = Inr ri \<and> body ri = Inr rj
          \<and> rollout_loop body (Suc i) r0 = Inr rj
          \<and> rollout_loop body (n - Suc i) rj = Inr r"
proof -
  have n: "n = i + Suc (n - Suc i)" using assms(2) by simp
  from assms(1) obtain ri where ri: "rollout_loop body i r0 = Inr ri"
    and rest: "rollout_loop body (Suc (n - Suc i)) ri = Inr r"
    using rollout_loop_add[of body i "Suc (n - Suc i)" r0] n
    by (cases "rollout_loop body i r0") auto
  from rest obtain rj where rj: "body ri = Inr rj" and fin: "rollout_loop body (n - Suc i) rj = Inr r"
    by (cases "body ri") auto
  have "rollout_loop body (Suc i) r0 = Inr rj"
    using rollout_loop_add[of body i 1 r0] ri rj by simp
  with ri rj fin show ?thesis by blast
qed

text \<open>
  Claim C4. When evaluating the policy raises nothing, a rollout of horizon \<open>max_steps\<close>
  returns six buffers of exactly \<open>max_steps\<close> entries and one final value, the critic's
  value of the state the loop ends in. Entry \<open>i\<close> of the buffers is the transition of
  iteration \<open>i\<close>: the state before it, the action, log-probability and value of the
  policy there, the reward, and as done flag the terminated signal of that step alone (so
  a truncated step that did not terminate is recorded with done false). After a step that
  terminated or was truncated the loop continues from the reset environment, otherwise
  from the next state, and later iterations keep the entries already recorded.
\<close>

theorem collect_rollout_records_horizon:
  assumes total: "\<forall>s w. \<exists>res. select_action discrete n_logits actor_net critic_net cat_sample
                              normal_sample s w = Inr res"
    and body: "body = rollout_body
                 (select_action discrete n_logits actor_net critic_net cat_sample normal_sample)
                 env_step env_reset"
    and r0: "r0 = \<lparr>ro_states = [], ro_actions = [], ro_rewards = [], ro_values = [],
                   ro_log_probs = [], ro_dones = [], ro_state = fst (env_reset w),
                   ro_world = snd (env_reset w), ro_episode_rewards = [],
                   ro_current_episode_reward = 0\<rparr>"
  shows "\<exists>r. collect_rollout discrete n_logits actor_net critic_net cat_sample normal_sample
               env_step env_reset max_steps w = Inr (r, critic_net (ro_state r))
     \<and> rollout_loop body max_steps r0 = Inr r
     \<and> length (ro_states r) = max_steps \<and> length (ro_actions r) = max_steps
     \<and> length (ro_rewards r) = max_steps \<and> length (ro_values r) = max_steps
     \<and> length (ro_log_probs r) = max_steps \<and> length (ro_dones r) = max_steps
     \<and> (\<forall>i<max_steps.
          \<exists>ri action log_prob val w1 next_state reward terminated truncated w2 rj.
            rollout_loop body i r0 = Inr ri
            \<and> select_action discrete n_logits actor_net critic_net cat_sample normal_sample
                  (ro_state ri) (ro_world ri) = Inr (action, log_prob, val, w1)
            \<and> env_step action w1 = ((next_state, reward, terminated, truncated), w2)
            \<and> ro_states r ! i = ro_state ri \<and> ro_actions r ! i = action
            \<and> ro_rewards r ! i = reward \<and> ro_values r ! i = val
            \<and> ro_log_probs r ! i = log_prob \<and> ro_dones r ! i = terminated
            \<and> rollout_loop body (Suc i) r0 = Inr rj
            \<and> ro_state rj = (if terminated \<or> truncated then fst (env_reset w2) else next_state)
            \<and> ro_world rj = (if terminated \<or> truncated then snd (env_reset w2) else w2))"
proof -
  let ?policy = "select_action discrete n_logits actor_net critic_net cat_sample normal_sample"
  have body_total: "\<forall>r. \<exists>r1. body r = Inr r1"
  proof
    fix r :: "('a, 'b) rollout"
    from total obtain res where res: "?policy (ro_state r) (ro_world r) = Inr res" by blast
    obtain action log_prob val w1 where r4: "res = (action, log_prob, val, w1)" by (cases res) auto
    obtain next_state reward terminated truncated w2
      where e: "env_step action w1 = ((next_state, reward, terminated, truncated), w2)"
      by (metis prod.exhaust)
    from rollout_body_step[where policy = ?policy and r = r and env_step = env_step
        and env_reset = env_reset, OF res[unfolded r4] e]
    show "\<exists>r1. body r = Inr r1" unfolding body by blast
  qed
  from rollout_loop_total[OF body_total] obtain r where r: "rollout_loop body max_steps r0 = Inr r"
    by blast
  have grow: "\<forall>r r1. body r = Inr r1 \<longrightarrow> (\<exists>x. ro_states r1 = ro_states r @ [x])"
    "\<forall>r r1. body r = Inr r1 \<longrightarrow> (\<exists>x. ro_actions r1 = ro_actions r @ [x])"
    "\<forall>r r1. body r = Inr r1 \<longrightarrow> (\<exists>x. ro_rewards r1 = ro_rewards r @ [x])"
    "\<forall>r r1. body r = Inr r1 \<longrightarrow> (\<exists>x. ro_values r1 = ro_values r @ [x])"
    "\<forall>r r1. body r = Inr r1 \<longrightarrow> (\<exists>x. ro_log_probs r1 = ro_log_probs r @ [x])"
    "\<forall>r r1. body r = Inr r1 \<longrightarrow> (\<exists>x. ro_dones r1 = ro_dones r @ [x])"
    unfolding body using rollout_body_grows by blast+
  have empty: "ro_states r0 = []" "ro_actions r0 = []" "ro_rewards r0 = []" "ro_values r0 = []"
    "ro_log_probs r0 = []" "ro_dones r0 = []"
    by (simp_all add: r0)
  have lens: "length (ro_states r) = max_steps" "length (ro_actions r) = max_steps"
    "length (ro_rewards r) = max_steps" "length (ro_values r) = max_steps"
    "length (ro_log_probs r) = max_steps" "length (ro_dones r) = max_steps"
    using rollout_loop_grows[OF grow(1) r] rollout_loop_grows[OF grow(2) r]
      rollout_loop_grows[OF grow(3) r] rollout_loop_grows[OF grow(4) r]
      rollout_loop_grows[OF grow(5) r] rollout_loop_grows[OF grow(6) r] empty
    by auto
  have coll: "collect_rollout discrete n_logits actor_net critic_net cat_sample normal_sample
               env_step env_reset max_steps w = Inr (r, critic_net (ro_state r))"
    using r unfolding body r0
    by (simp add: collect_rollout_def case_prod_unfold ebind_def Let_def)
  have each: "\<exists>ri action log_prob val w1 next_state reward terminated truncated w2 rj.
            rollout_loop body i r0 = Inr ri
            \<and> ?policy (ro_state ri) (ro_world ri) = Inr (action, log_prob, val, w1)
            \<and> env_step action w1 = ((next_state, reward, terminated, truncated), w2)
            \<and> ro_states r ! i = ro_state ri \<and> ro_actions r ! i = action
            \<and> ro_rewards r ! i = reward \<and> ro_values r ! i = val
            \<and> ro_log_probs r ! i = log_prob \<and> ro_dones r ! i = terminated
            \<and> rollout_loop body (Suc i) r0 = Inr rj
            \<and> ro_state rj = (if terminated \<or> truncated then fst (env_reset w2) else next_state)
            \<and> ro_world rj = (if terminated \<or> truncated then snd (env_reset w2) else w2)"
    if i: "i < max_steps" for i
  proof -
    from rollout_loop_split[OF r i] obtain ri rj
      where ri: "rollout_loop body i r0 = Inr ri" and rj: "body ri = Inr rj"
        and sj: "rollout_loop body (Suc i) r0 = Inr rj"
        and fin: "rollout_loop body (max_steps - Suc i) rj = Inr r"
      by blast
    from rj[unfolded body] obtain action log_prob val w1 next_state reward terminated truncated w2
      where p: "?policy (ro_state ri) (ro_world ri) = Inr (action, log_prob, val, w1)"
        and e: "env_step action w1 = ((next_state, reward, terminated, truncated), w2)"
      by (rule rollout_body_Inr_cases)
    from rollout_body_step[where policy = ?policy and r = ri and env_step = env_step
        and env_reset = env_reset, OF p e] rj[unfolded body]
    have st: "ro_states rj = ro_states ri @ [ro_state ri]"
      "ro_actions rj = ro_actions ri @ [action]"
      "ro_rewards rj = ro_rewards ri @ [reward]"
      "ro_values rj = ro_values ri @ [val]"
      "ro_log_probs rj = ro_log_probs ri @ [log_prob]"
      "ro_dones rj = ro_dones ri @ [terminated]"
      "ro_state rj = (if terminated \<or> truncated then fst (env_reset w2) else next_state)"
      "ro_world rj = (if terminated \<or> truncated then snd (env_reset w2) else w2)"
      by auto
    have "ro_states r ! i = ro_state ri" "ro_actions r ! i = action" "ro_rewards r ! i = reward"
      "ro_values r ! i = val" "ro_log_probs r ! i = log_prob" "ro_dones r ! i = terminated"
      using rollout_loop_nth[OF grow(1) empty(1) ri st(1) fin]
        rollout_loop_nth[OF grow(2) empty(2) ri st(2) fin]
        rollout_loop_nth[OF grow(3) empty(3) ri st(3) fin]
        rollout_loop_nth[OF grow(4) empty(4) ri st(4) fin]
        rollout_loop_nth[OF grow(5) empty(5) ri st(5) fin]
        rollout_loop_nth[OF grow(6) empty(6) ri st(6) fin]
      by simp_all
    with ri p e sj st(7,8) show ?thesis by blast
  qed
  from coll r lens each show ?thesis by blast
qed


theorem collect_rollout_records_horizon_witness:
  "\<exists>r. collect_rollout False [] (\<lambda>s::nat. [0, 0]) (\<lambda>s. real s) (\<lambda>l w. (0, w))
          (\<lambda>d w. (map fst d, w)) (\<lambda>a w::nat. ((Suc w, 1, False, True), Suc w)) (\<lambda>w. (0, w)) 2 0
        = Inr (r, real (ro_state r))
     \<and> length (ro_states r) = 2 \<and> length (ro_dones r) = 2
     \<and> ro_dones r ! 0 = False \<and> ro_dones r ! 1 = False"
proof -
  let ?policy = "select_action False [] (\<lambda>s::nat. [0, 0]) (\<lambda>s. real s)
      (\<lambda>(l::real list) (w::nat). (0::nat, w)) (\<lambda>(d::(real \<times> real) list) (w::nat). (map fst d, w))"
  let ?step = "\<lambda>(a::real list) (w::nat). ((Suc w, 1::real, False, True), Suc w)"
  let ?reset = "\<lambda>w::nat. (0::nat, w)"
  have total: "\<forall>s w. \<exists>res. ?policy s w = Inr res"
    by (simp add: select_action_def actor_forward_def chunk2_def ebind_def Normal_def
        broadcast2_def normal_log_prob_def clamp_def Let_def)
  from collect_rollout_records_horizon[where max_steps = 2 and w = 0 and env_step = ?step and env_reset = ?reset,
      OF total refl refl]
  obtain r where c: "collect_rollout False [] (\<lambda>s::nat. [0, 0]) (\<lambda>s. real s) (\<lambda>l w. (0, w))
          (\<lambda>d w. (map fst d, w)) ?step ?reset 2 0 = Inr (r, real (ro_state r))"
    and l: "length (ro_states r) = 2" "length (ro_dones r) = 2"
    and e: "\<forall>i<2. \<exists>action w1 next_state reward terminated truncated w2.
            ?step action w1 = ((next_state, reward, terminated, truncated), w2)
            \<and> ro_dones r ! i = terminated"
    by blast
  from e have "ro_dones r ! 0 = False" "ro_dones r ! 1 = False" by auto
  with c l show ?thesis by blast
qed

text \<open>The advantage of the last index, for any decay: the bootstrap term and nothing else.\<close>

lemma compute_gae_last:
  fixes gamma :: "'a::comm_ring_1"
  assumes "length rewards = Suc n" "length vals = Suc n" "length dones = Suc n"
  shows "\<exists>advantages returns.
      compute_gae gamma lam rewards vals dones nv = Inr (advantages, returns)
      \<and> advantages ! n = rewards ! n + gamma * nv * (1 - dones ! n) - vals ! n"
proof -
  from gae_loop_spec[of "length rewards" rewards vals dones "replicate (length rewards) 0"
      gamma lam nv 0] assms
  obtain adv lg
    where r: "gae_loop gamma lam rewards vals dones nv (length rewards)
               (replicate (length rewards) 0) 0 = Inr (adv, lg)"
      and len: "length adv = length rewards"
      and rec: "\<forall>t<length rewards. adv ! t = td_delta gamma rewards vals dones nv t
              + gamma * lam * (1 - dones ! t) * (if Suc t = length rewards then 0 else adv ! Suc t)"
    by auto
  have "compute_gae gamma lam rewards vals dones nv = Inr (adv, map2 (+) adv vals)"
    using r len assms by (simp add: compute_gae_def broadcast2_same)
  moreover have "adv ! n = td_delta gamma rewards vals dones nv n"
    using rec assms(1) by simp
  ultimately show ?thesis using assms(1) by (simp add: td_delta_def)
qed

text \<open>
  Claim C10. Let the last of \<open>Suc n\<close> transitions be truncated and not terminated. Then
  the final value returned by \<open>collect_rollout\<close> is the critic's value of the observation
  returned by the reset that follows, not of \<open>next_state\<close>; the done flag of that
  transition is false; and in the advantages computed from the rollout the last one is
  \<open>reward + gamma * final_value - value\<close>, with the value of the reset state not zeroed.
\<close>

theorem truncated_last_step_bootstraps_from_reset:
  assumes body: "body = rollout_body
                 (select_action discrete n_logits actor_net critic_net cat_sample normal_sample)
                 env_step env_reset"
    and r0: "r0 = \<lparr>ro_states = [], ro_actions = [], ro_rewards = [], ro_values = [],
                   ro_log_probs = [], ro_dones = [], ro_state = fst (env_reset w),
                   ro_world = snd (env_reset w), ro_episode_rewards = [],
                   ro_current_episode_reward = 0\<rparr>"
    and before: "rollout_loop body n r0 = Inr rn"
    and act: "select_action discrete n_logits actor_net critic_net cat_sample normal_sample
                (ro_state rn) (ro_world rn) = Inr (action, log_prob, val, w1)"
    and last: "env_step action w1 = ((next_state, reward, False, True), w2)"
  shows "\<exists>r advantages returns.
       collect_rollout discrete n_logits actor_net critic_net cat_sample normal_sample
           env_step env_reset (Suc n) w = Inr (r, critic_net (fst (env_reset w2)))
     \<and> ro_state r = fst (env_reset w2)
     \<and> length (ro_dones r) = Suc n \<and> ro_dones r ! n = False
     \<and> ro_rewards r ! n = reward \<and> ro_values r ! n = val
     \<and> train_compute_gae gamma gae_lambda (r, critic_net (fst (env_reset w2)))
           = Inr (advantages, returns)
     \<and> advantages ! n = reward + gamma * critic_net (fst (env_reset w2)) - val"
proof -
  let ?policy = "select_action discrete n_logits actor_net critic_net cat_sample normal_sample"
  from rollout_body_step[where policy = ?policy and r = rn and env_step = env_step
      and env_reset = env_reset, OF act last]
  obtain r where b: "body rn = Inr r"
    and st: "ro_rewards r = ro_rewards rn @ [reward]" "ro_values r = ro_values rn @ [val]"
      "ro_dones r = ro_dones rn @ [False]" "ro_state r = fst (env_reset w2)"
    unfolding body by auto
  have r: "rollout_loop body (Suc n) r0 = Inr r"
    using rollout_loop_add[of body n 1 r0] before b by simp
  have grow: "\<forall>r r1. body r = Inr r1 \<longrightarrow> (\<exists>x. ro_rewards r1 = ro_rewards r @ [x])"
    "\<forall>r r1. body r = Inr r1 \<longrightarrow> (\<exists>x. ro_values r1 = ro_values r @ [x])"
    "\<forall>r r1. body r = Inr r1 \<longrightarrow> (\<exists>x. ro_dones r1 = ro_dones r @ [x])"
    unfolding body using rollout_body_grows by blast+
  have empty: "ro_rewards r0 = []" "ro_values r0 = []" "ro_dones r0 = []"
    by (simp_all add: r0)
  have fin: "rollout_loop body 0 r = Inr r" by simp
  have nth: "ro_rewards r ! n = reward" "length (ro_rewards r) = Suc n"
    "ro_values r ! n = val" "length (ro_values r) = Suc n"
    "ro_dones r ! n = False" "length (ro_dones r) = Suc n"
    using rollout_loop_nth[OF grow(1) empty(1) before st(1) fin]
      rollout_loop_nth[OF grow(2) empty(2) before st(2) fin]
      rollout_loop_nth[OF grow(3) empty(3) before st(3) fin]
    by simp_all
  have coll: "collect_rollout discrete n_logits actor_net critic_net cat_sample normal_sample
           env_step env_reset (Suc n) w = Inr (r, critic_net (fst (env_reset w2)))"
    using r st(4) unfolding body r0
    by (simp add: collect_rollout_def case_prod_unfold ebind_def Let_def del: rollout_loop.simps)
  from compute_gae_last[of "ro_rewards r" n "ro_values r" "map of_bool (ro_dones r)" gamma
      gae_lambda "critic_net (fst (env_reset w2))"] nth
  obtain advantages returns
    where "train_compute_gae gamma gae_lambda (r, critic_net (fst (env_reset w2)))
           = Inr (advantages, returns)"
      and "advantages ! n = reward + gamma * critic_net (fst (env_reset w2)) - val"
    by (auto simp: train_compute_gae_def)
  with coll st(4) nth show ?thesis by blast
qed


theorem truncated_last_step_bootstraps_from_reset_witness:
  "\<exists>r advantages returns.
     collect_rollout False [] (\<lambda>s::nat. [0, 0]) (\<lambda>s. real s) (\<lambda>l w. (0, w))
         (\<lambda>d w. (map fst d, w)) (\<lambda>a w::nat. ((9, 1, False, True), Suc w)) (\<lambda>w. (5, w)) 1 0
       = Inr (r, 5)
     \<and> ro_state r = 5 \<and> ro_dones r ! 0 = False
     \<and> train_compute_gae (99/100) (95/100) (r, 5) = Inr (advantages, returns)
     \<and> advantages ! 0 = 1 + 99/100 * 5 - 5
     \<and> real 5 \<noteq> real 9"
proof -
  let ?step = "\<lambda>(a::real list) (w::nat). ((9::nat, 1::real, False, True), Suc w)"
  let ?reset = "\<lambda>w::nat. (5::nat, w)"
  let ?r0 = "\<lparr>ro_states = [], ro_actions = [], ro_rewards = [], ro_values = [],
                   ro_log_probs = [], ro_dones = [], ro_state = fst (?reset 0),
                   ro_world = snd (?reset 0), ro_episode_rewards = [],
                   ro_current_episode_reward = 0\<rparr>"
  have before: "rollout_loop (rollout_body
       (select_action False [] (\<lambda>s::nat. [0, 0]) (\<lambda>s. real s) (\<lambda>l w. (0, w))
          (\<lambda>d w. (map fst d, w))) ?step ?reset) 0 ?r0 = Inr ?r0"
    by simp
  have act: "select_action False [] (\<lambda>s::nat. [0, 0]) (\<lambda>s. real s)
       (\<lambda>(l::real list) (w::nat). (0::nat, w)) (\<lambda>(d::(real \<times> real) list) (w::nat). (map fst d, w))
       (ro_state ?r0) (ro_world ?r0)
     = Inr ([0], normal_log_prob1 (0, 1) 0, 5, 0)"
    by (simp add: select_action_def actor_forward_def chunk2_def ebind_def Normal_def
        broadcast2_def normal_log_prob_def clamp_def Let_def)
  have last: "?step [0] 0 = ((9, 1, False, True), Suc 0)" by simp
  from truncated_last_step_bootstraps_from_reset[where gamma = "99/100" and gae_lambda = "95/100", OF refl refl before act last]
  obtain r advantages returns
    where "collect_rollout False [] (\<lambda>s::nat. [0, 0]) (\<lambda>s. real s) (\<lambda>l w. (0, w))
         (\<lambda>d w. (map fst d, w)) ?step ?reset (Suc 0) 0 = Inr (r, real (fst (?reset (Suc 0))))"
      and "ro_state r = fst (?reset (Suc 0))" and "ro_dones r ! 0 = False"
      and "train_compute_gae (99/100) (95/100) (r, real (fst (?reset (Suc 0))))
             = Inr (advantages, returns)"
      and "advantages ! 0 = 1 + 99/100 * real (fst (?reset (Suc 0))) - 5"
    by blast
  then have "collect_rollout False [] (\<lambda>s::nat. [0, 0]) (\<lambda>s. real s) (\<lambda>l w. (0, w))
         (\<lambda>d w. (map fst d, w)) ?step ?reset 1 0 = Inr (r, 5)
     \<and> ro_state r = 5 \<and> ro_dones r ! 0 = False
     \<and> train_compute_gae (99/100) (95/100) (r, 5) = Inr (advantages, returns)
     \<and> advantages ! 0 = 1 + 99/100 * 5 - 5
     \<and> real 5 \<noteq> real 9"
    by simp
  then show ?thesis by blast
qed

end
